theory Spec2Isabelle
  imports Main "HOL-Library.Word" "HOL-Library.AList"
begin

section \<open>Data model (types.go)\<close>

text \<open>
  Go strings are byte sequences, modelled as \<open>string\<close>. A \<open>float32\<close> is carried as its
  32-bit pattern and never interpreted; its zero value is the word 0. Go's \<open>int\<close> is
  modelled as \<open>int\<close>: the only arithmetic the client does on it is the loop counter of
  \<open>Chat\<close>, which stays between 0 and \<open>maxRetries + 1\<close>.
\<close>

type_synonym float32 = "32 word"

record Message =
  Role :: string
  Content :: string

text \<open>
  A schema node is a Go \<open>map[string]interface{}\<close>. The values the generator stores are
  strings, string slices and nested maps. A map is an association list with unique keys,
  written with \<open>AList.update\<close> and read with \<open>map_of\<close>; the order of the pairs is an
  artefact of the model, so statements about maps go through \<open>map_of\<close>.
\<close>

datatype jvalue =
    JString string
  | JStrings "string list"
  | JObject "(string \<times> jvalue) list"

type_synonym jmap = "(string \<times> jvalue) list"

record ChatRequest =
  Model :: string
  Messages :: "Message list"
  Temperature :: float32
  TopP :: float32
  MaxTokens :: int
  Stop :: "string list"
  NChoices :: int
  PresencePenalty :: float32
  FrequencyPenalty :: float32
  JSONSchema :: "jmap option"

record Choice =
  ChoiceMessage :: Message
  FinishReason :: string

record Usage =
  PromptTokens :: int
  CompletionTokens :: int
  TotalTokens :: int

record ChatResponse =
  Choices :: "Choice list"
  TokenUsage :: Usage

section \<open>Reflected types\<close>

text \<open>
  A \<open>reflect.Type\<close> as far as the generator inspects it: its kind, the element type of
  a pointer, slice or array, and the fields of a struct. Maps, channels, functions and
  interfaces are not inspected further. The types are finite trees: a Go type that
  refers to itself (through a pointer or a slice) has no value here, and on such a type
  the recursion of the generator does not end.
\<close>

datatype gtype =
    TBool | TInt | TInt8 | TInt16 | TInt32 | TInt64
  | TUint | TUint8 | TUint16 | TUint32 | TUint64 | TUintptr
  | TFloat32 | TFloat64 | TComplex64 | TComplex128
  | TString | TUnsafePointer | TChan | TFunc | TInterface | TMap
  | PtrTo gtype
  | SliceOf gtype
  | ArrayOf nat gtype
  | StructOf "sfield list"
and sfield =
    SField (FName: string) (PkgPath: string) (Anonymous: bool)
           (Tag: "(string \<times> string) list") (FType: gtype)

text \<open>
  A field is \<open>SField name pkgPath anonymous tag type\<close>; \<open>tag\<close> maps the keys of the
  struct tag to their values, and \<open>Tag.Get\<close> of an absent key is the empty string.
\<close>

section \<open>The environment of one call\<close>

text \<open>
  What the client receives from outside is a parameter of the model: the transport's
  answer to each call, the state of the caller's context, and the library functions the
  client calls (\<open>encoding/json\<close>, \<open>net/http\<close>, the float-to-integer conversion of the
  platform).
\<close>

datatype ctx_err = Canceled | DeadlineExceeded

record http_request =
  Method :: string
  URL :: string
  Header :: "(string \<times> string) list"
  Body :: string

record http_response =
  StatusCode :: int
  RespBody :: string

text \<open>
  The answer of \<open>httpClient.Do\<close> to the call of one attempt: the call failed because the
  caller's context was cancelled or timed out, it failed for another reason, or a
  response arrived.
\<close>

datatype net_outcome =
    NetCancelled ctx_err
  | NetFailed string
  | NetResponse http_response

type_synonym http_client = "nat \<Rightarrow> http_request \<Rightarrow> net_outcome"

record world =
  ctx_done_in_wait :: "nat \<Rightarrow> ctx_err option"
  json_marshal :: "ChatRequest \<Rightarrow> string + string"
  new_request_error :: "string \<Rightarrow> string option"
  json_decode :: "string \<Rightarrow> string + ChatResponse"
  json_unmarshal_error :: "string \<Rightarrow> gtype option \<Rightarrow> string option"
  float_out_of_range :: "int \<Rightarrow> 64 word"

text \<open>
  \<^item> \<open>ctx_done_in_wait w i = Some e\<close>: during the backoff wait before attempt \<open>i\<close> the
    context becomes done, with \<open>ctx.Err() = e\<close>, before the timer fires.
  \<^item> \<open>json_marshal\<close>, \<open>json_decode\<close>, \<open>json_unmarshal_error\<close>: \<open>json.Marshal\<close> of a
    request, \<open>Decode\<close> of a response body, and the error of \<open>json.Unmarshal\<close> of a
    content string into the caller's target (\<open>Inl\<close> and \<open>Some\<close> carry the error text).
  \<^item> \<open>new_request_error url\<close>: the error of \<open>http.NewRequestWithContext\<close> for this URL.
  \<^item> \<open>float_out_of_range n\<close>: what the platform yields when the float \<open>2^n\<close>, too large
    for \<open>int64\<close>, is converted to \<open>int64\<close> (Go leaves this to the implementation).
\<close>

section \<open>Errors\<close>

datatype kind =
    KInvalid | KBool | KInt | KInt8 | KInt16 | KInt32 | KInt64
  | KUint | KUint8 | KUint16 | KUint32 | KUint64 | KUintptr
  | KFloat32 | KFloat64 | KComplex64 | KComplex128
  | KArray | KChan | KFunc | KInterface | KMap | KPointer | KSlice
  | KString | KStruct | KUnsafePointer

text \<open>
  The errors of the schema generator. The two panics of the generator (a method call on
  the nil \<open>reflect.Type\<close> and a failed type assertion) are results of their own, so that
  no input of the model hides them.
\<close>

datatype gen_error =
    ExpectedStruct kind
  | UnsupportedType kind
  | FieldError string gen_error
  | PanicNilType
  | PanicTypeAssertion

datatype error =
    ContextError ctx_err
  | MarshalError string
  | CreateRequestError string
  | TransportCancelled ctx_err
  | TransportError string
  | HTTPStatusError int
  | MaxRetriesExceeded "error option"
  | APIError int string
  | DecodeError string
  | NoChoices
  | SchemaError gen_error
  | UnmarshalError string
  | PanicNilResponse

text \<open>
  \<^item> \<open>ContextError e\<close> is \<open>ctx.Err()\<close> itself.
  \<^item> \<open>TransportCancelled e\<close> is the error \<open>httpClient.Do\<close> returns when the context ended
    the call; \<open>TransportError\<close> is any other error of \<open>Do\<close>.
  \<^item> \<open>HTTPStatusError n\<close> is \<open>fmt.Errorf("HTTP %d", n)\<close>.
  \<^item> \<open>MaxRetriesExceeded last\<close> is \<open>fmt.Errorf("max retries exceeded: %w", lastErr)\<close>;
    \<open>None\<close> is a nil \<open>lastErr\<close>.
  \<^item> \<open>APIError n body\<close> is \<open>fmt.Errorf("API error: status %d, body: %s", n, body)\<close>.
\<close>

section \<open>Retry policy (retry.go)\<close>

text \<open>
  \<open>shouldRetry(err, resp)\<close>: both arguments may be nil. With a nil error the function
  reads \<open>resp.StatusCode\<close>, which panics on a nil response: the result \<open>None\<close>.
\<close>

fun shouldRetry :: "error option \<Rightarrow> http_response option \<Rightarrow> bool option" where
  "shouldRetry (Some err) resp = Some True"
| "shouldRetry None (Some resp) =
     (if StatusCode resp \<ge> 500 \<or> StatusCode resp = 429 then Some True else Some False)"
| "shouldRetry None None = None"

type_synonym duration = "64 word"

definition Second :: duration where
  "Second = 1000000000"

text \<open>
  \<open>time.Duration(math.Pow(2, float64(attempt)))\<close>: for \<open>0 \<le> attempt \<le> 62\<close> the power
  is an exact float and converts to the same integer; a negative \<open>attempt\<close> gives a float
  in \<open>[0, 1)\<close>, truncated to 0; from 63 on the float does not fit \<open>int64\<close> and the
  platform decides.
\<close>

definition pow2_duration :: "(int \<Rightarrow> 64 word) \<Rightarrow> int \<Rightarrow> duration" where
  "pow2_duration oor attempt =
     (if attempt < 0 then 0
      else if attempt \<le> 62 then 2 ^ nat attempt
      else oor attempt)"

text \<open>The product with \<open>time.Second\<close> is an \<open>int64\<close> product: it wraps.\<close>

definition backoff :: "(int \<Rightarrow> 64 word) \<Rightarrow> int \<Rightarrow> duration" where
  "backoff oor attempt = pow2_duration oor attempt * Second"

section \<open>Client (options.go, client.go)\<close>

record Client =
  baseURL :: string
  apiKey :: string
  model :: string
  httpClient :: http_client
  maxRetries :: int

type_synonym Option = "Client \<Rightarrow> Client"

definition WithHttpClient :: "http_client \<Rightarrow> Option" where
  "WithHttpClient hc = (\<lambda>c. c\<lparr>httpClient := hc\<rparr>)"

definition WithMaxRetries :: "int \<Rightarrow> Option" where
  "WithMaxRetries n = (\<lambda>c. c\<lparr>maxRetries := n\<rparr>)"

text \<open>\<open>http.DefaultClient\<close> is the first parameter.\<close>

definition NewClient :: "http_client \<Rightarrow> string \<Rightarrow> string \<Rightarrow> string \<Rightarrow> Option list \<Rightarrow> Client" where
  "NewClient defaultClient url key mdl opts =
     fold (\<lambda>opt c. opt c) opts
       \<lparr>baseURL = url, apiKey = key, model = mdl, httpClient = defaultClient, maxRetries = 3\<rparr>"

subsection \<open>parseResponse\<close>

definition parseResponse :: "world \<Rightarrow> http_response \<Rightarrow> error + ChatResponse" where
  "parseResponse w resp =
     (if StatusCode resp \<noteq> 200 then Inl (APIError (StatusCode resp) (RespBody resp))
      else (case json_decode w (RespBody resp) of
              Inl msg \<Rightarrow> Inl (DecodeError msg)
            | Inr result \<Rightarrow>
                if length (Choices result) = 0 then Inl NoChoices else Inr result))"

subsection \<open>doRequest\<close>

text \<open>
  The state of the caller's context is \<open>None\<close> while it is live and \<open>Some e\<close> once it is
  done with \<open>ctx.Err() = e\<close>; a done context stays done. \<open>doRequest\<close> returns its result,
  the state of the context after the call, and the request it handed to the transport
  (none when it failed before).
\<close>

definition build_request :: "Client \<Rightarrow> string \<Rightarrow> http_request" where
  "build_request c jsonData =
     \<lparr>Method = ''POST'', URL = baseURL c @ ''/chat/completions'',
      Header = [(''Content-Type'', ''application/json''),
                (''Authorization'', ''Bearer '' @ apiKey c)],
      Body = jsonData\<rparr>"

definition ctx_after :: "ctx_err option \<Rightarrow> ctx_err \<Rightarrow> ctx_err" where
  "ctx_after ctx e = (case ctx of Some e0 \<Rightarrow> e0 | None \<Rightarrow> e)"

definition doRequest ::
  "world \<Rightarrow> Client \<Rightarrow> ctx_err option \<Rightarrow> nat \<Rightarrow> ChatRequest \<Rightarrow>
     (error + http_response) \<times> ctx_err option \<times> http_request list" where
  "doRequest w c ctx n req =
     (case json_marshal w req of
        Inl msg \<Rightarrow> (Inl (MarshalError msg), ctx, [])
      | Inr jsonData \<Rightarrow>
          (case new_request_error w (baseURL c @ ''/chat/completions'') of
             Some msg \<Rightarrow> (Inl (CreateRequestError msg), ctx, [])
           | None \<Rightarrow>
               (let httpReq = build_request c jsonData in
                case httpClient c n httpReq of
                  NetCancelled e \<Rightarrow>
                    (Inl (TransportCancelled (ctx_after ctx e)), Some (ctx_after ctx e), [httpReq])
                | NetFailed msg \<Rightarrow> (Inl (TransportError msg), ctx, [httpReq])
                | NetResponse resp \<Rightarrow> (Inr resp, ctx, [httpReq]))))"

subsection \<open>Chat\<close>

text \<open>
  The \<open>select\<close> of a retry: \<open>Inl e\<close> when \<open>ctx.Done()\<close> is received first (the context
  was done on entry, or becomes done before the timer fires), \<open>Inr d\<close> when the timer of
  \<open>backoff(attempt - 1) = d\<close> fires first. A timer of positive duration is not ready on
  entry, so a context that is already done is the only ready case; the waits before an
  attempt add up to \<open>2^(attempt - 1) - 1\<close> seconds, so every attempt that is reached
  within the range of \<open>time.Duration\<close> has such a timer.
\<close>

definition backoff_wait :: "world \<Rightarrow> ctx_err option \<Rightarrow> int \<Rightarrow> ctx_err + duration" where
  "backoff_wait w ctx attempt =
     (case ctx of
        Some e \<Rightarrow> Inl e
      | None \<Rightarrow>
          (case ctx_done_in_wait w (nat attempt) of
             Some e \<Rightarrow> Inl e
           | None \<Rightarrow> Inr (backoff (float_out_of_range w) (attempt - 1))))"

datatype event = Slept duration | Sent http_request

fun sends :: "event list \<Rightarrow> http_request list" where
  "sends [] = []"
| "sends (Slept d # tr) = sends tr"
| "sends (Sent h # tr) = h # sends tr"

text \<open>
  One iteration of the loop of \<open>Chat\<close>: it either returns from \<open>Chat\<close> or goes on to the
  next iteration (\<open>continue\<close>, or the end of the body) with the context, \<open>lastErr\<close> and the
  events so far.
\<close>

datatype loop_step =
    Return "(error + ChatResponse) \<times> event list"
  | Continue "ctx_err option" "error option" "event list"

definition chat_attempt ::
  "world \<Rightarrow> Client \<Rightarrow> ChatRequest \<Rightarrow> ctx_err option \<Rightarrow> int \<Rightarrow> event list \<Rightarrow> loop_step" where
  "chat_attempt w c req ctx attempt tr =
     (let waited = (if attempt > 0 then Some (backoff_wait w ctx attempt) else None) in
      case waited of
        Some (Inl e) \<Rightarrow> Return (Inl (ContextError e), tr)
      | _ \<Rightarrow>
         (let tr1 = (case waited of Some (Inr d) \<Rightarrow> tr @ [Slept d] | _ \<Rightarrow> tr);
              (res, ctx', sent) = doRequest w c ctx (nat attempt) req;
              tr2 = tr1 @ map Sent sent
          in case res of
               Inl err \<Rightarrow>
                 (case shouldRetry (Some err) None of
                    None \<Rightarrow> Return (Inl PanicNilResponse, tr2)
                  | Some False \<Rightarrow> Return (Inl err, tr2)
                  | Some True \<Rightarrow> Continue ctx' (Some err) tr2)
             | Inr apiResp \<Rightarrow>
                 (case shouldRetry None (Some apiResp) of
                    None \<Rightarrow> Return (Inl PanicNilResponse, tr2)
                  | Some False \<Rightarrow> Return (parseResponse w apiResp, tr2)
                  | Some True \<Rightarrow>
                      Continue ctx' (Some (HTTPStatusError (StatusCode apiResp))) tr2)))"

function chat_loop ::
  "world \<Rightarrow> Client \<Rightarrow> ChatRequest \<Rightarrow> ctx_err option \<Rightarrow> int \<Rightarrow> error option \<Rightarrow> event list \<Rightarrow>
     (error + ChatResponse) \<times> event list" where
  "chat_loop w c req ctx attempt lastErr tr =
     (if attempt \<le> maxRetries c then
        (case chat_attempt w c req ctx attempt tr of
           Return r \<Rightarrow> r
         | Continue ctx' lastErr' tr' \<Rightarrow> chat_loop w c req ctx' (attempt + 1) lastErr' tr')
      else (Inl (MaxRetriesExceeded lastErr), tr))"
  by pat_completeness auto
termination
  by (relation "measure (\<lambda>(w, c, req, ctx, attempt, lastErr, tr). nat (maxRetries c + 1 - attempt))")
     auto

declare chat_loop.simps [simp del]

definition Chat ::
  "world \<Rightarrow> Client \<Rightarrow> ctx_err option \<Rightarrow> ChatRequest \<Rightarrow> (error + ChatResponse) \<times> event list" where
  "Chat w c ctx req =
     (let req' = (if Model req = [] then req\<lparr>Model := model c\<rparr> else req)
      in chat_loop w c req' ctx 0 None [])"

subsection \<open>SimpleRequest\<close>

definition zero_request :: ChatRequest where
  "zero_request =
     \<lparr>Model = [], Messages = [], Temperature = 0, TopP = 0, MaxTokens = 0, Stop = [],
      NChoices = 0, PresencePenalty = 0, FrequencyPenalty = 0, JSONSchema = None\<rparr>"

text \<open>The request \<open>SimpleRequest\<close> builds before it calls \<open>Chat\<close>.\<close>

definition simple_request :: "string \<Rightarrow> string \<Rightarrow> ChatRequest" where
  "simple_request systemPrompt userPrompt =
     (let messages = [];
          messages = (if systemPrompt \<noteq> [] then
                        messages @ [\<lparr>Role = ''system'', Content = systemPrompt\<rparr>]
                      else messages);
          messages = messages @ [\<lparr>Role = ''user'', Content = userPrompt\<rparr>]
      in zero_request\<lparr>Messages := messages\<rparr>)"

text \<open>What \<open>SimpleRequest\<close> returns for a response \<open>Chat\<close> returned without error.\<close>

definition first_choice_content :: "ChatResponse \<Rightarrow> error + string" where
  "first_choice_content resp =
     (if length (Choices resp) = 0 then Inl NoChoices
      else Inr (Content (ChoiceMessage (Choices resp ! 0))))"

definition SimpleRequest ::
  "world \<Rightarrow> Client \<Rightarrow> ctx_err option \<Rightarrow> string \<Rightarrow> string \<Rightarrow> (error + string) \<times> event list" where
  "SimpleRequest w c ctx systemPrompt userPrompt =
     (case Chat w c ctx (simple_request systemPrompt userPrompt) of
        (Inl err, tr) \<Rightarrow> (Inl err, tr)
      | (Inr resp, tr) \<Rightarrow> (first_choice_content resp, tr))"

section \<open>Schema generator (schema.go)\<close>

fun Kind :: "gtype \<Rightarrow> kind" where
  "Kind TBool = KBool"
| "Kind TInt = KInt"
| "Kind TInt8 = KInt8"
| "Kind TInt16 = KInt16"
| "Kind TInt32 = KInt32"
| "Kind TInt64 = KInt64"
| "Kind TUint = KUint"
| "Kind TUint8 = KUint8"
| "Kind TUint16 = KUint16"
| "Kind TUint32 = KUint32"
| "Kind TUint64 = KUint64"
| "Kind TUintptr = KUintptr"
| "Kind TFloat32 = KFloat32"
| "Kind TFloat64 = KFloat64"
| "Kind TComplex64 = KComplex64"
| "Kind TComplex128 = KComplex128"
| "Kind TString = KString"
| "Kind TUnsafePointer = KUnsafePointer"
| "Kind TChan = KChan"
| "Kind TFunc = KFunc"
| "Kind TInterface = KInterface"
| "Kind TMap = KMap"
| "Kind (PtrTo t) = KPointer"
| "Kind (SliceOf t) = KSlice"
| "Kind (ArrayOf n t) = KArray"
| "Kind (StructOf fs) = KStruct"

definition IsExported :: "sfield \<Rightarrow> bool" where
  "IsExported f = (PkgPath f = [])"

definition tag_get :: "(string \<times> string) list \<Rightarrow> string \<Rightarrow> string" where
  "tag_get tag key = (case map_of tag key of Some v \<Rightarrow> v | None \<Rightarrow> [])"

subsection \<open>The functions of package strings\<close>

text \<open>\<open>strings.Split\<close> with a separator of one byte: the result is never empty.\<close>

fun split_on :: "char \<Rightarrow> string \<Rightarrow> string list" where
  "split_on sep [] = [[]]"
| "split_on sep (x # xs) =
     (if x = sep then [] # split_on sep xs
      else (x # hd (split_on sep xs)) # tl (split_on sep xs))"

definition has_prefix :: "string \<Rightarrow> string \<Rightarrow> bool" where
  "has_prefix s pre = (take (length pre) s = pre)"

definition trim_prefix :: "string \<Rightarrow> string \<Rightarrow> string" where
  "trim_prefix s pre = (if has_prefix s pre then drop (length pre) s else s)"

definition parseSchemaTag :: "string \<Rightarrow> string \<Rightarrow> string" where
  "parseSchemaTag tag key =
     (case find (\<lambda>part. has_prefix part (key @ ''='')) (split_on CHR '';'' tag) of
        Some part \<Rightarrow> trim_prefix part (key @ ''='')
      | None \<Rightarrow> [])"

subsection \<open>The generator\<close>

text \<open>
  \<open>object_fields\<close> is the loop of \<open>generateObjectSchema\<close> over the fields, with the map
  under \<open>schema["properties"]\<close> and \<open>requiredFields\<close> as its state.
  \<open>generateArraySchema\<close> takes \<open>t.Elem()\<close>.
\<close>

fun generateSchemaForType :: "gtype \<Rightarrow> gen_error + jmap"
and generateObjectSchema :: "sfield list \<Rightarrow> gen_error + jmap"
and object_fields :: "sfield list \<Rightarrow> jmap \<Rightarrow> string list \<Rightarrow> gen_error + jmap \<times> string list"
and generateArraySchema :: "gtype \<Rightarrow> gen_error + jmap"
where
  "generateSchemaForType (StructOf fs) = generateObjectSchema fs"
| "generateSchemaForType (SliceOf t) = generateArraySchema t"
| "generateSchemaForType (ArrayOf n t) = generateArraySchema t"
| "generateSchemaForType TString = Inr [(''type'', JString ''string'')]"
| "generateSchemaForType TInt = Inr [(''type'', JString ''integer'')]"
| "generateSchemaForType TInt8 = Inr [(''type'', JString ''integer'')]"
| "generateSchemaForType TInt16 = Inr [(''type'', JString ''integer'')]"
| "generateSchemaForType TInt32 = Inr [(''type'', JString ''integer'')]"
| "generateSchemaForType TInt64 = Inr [(''type'', JString ''integer'')]"
| "generateSchemaForType TUint = Inr [(''type'', JString ''integer'')]"
| "generateSchemaForType TUint8 = Inr [(''type'', JString ''integer'')]"
| "generateSchemaForType TUint16 = Inr [(''type'', JString ''integer'')]"
| "generateSchemaForType TUint32 = Inr [(''type'', JString ''integer'')]"
| "generateSchemaForType TUint64 = Inr [(''type'', JString ''integer'')]"
| "generateSchemaForType TFloat32 = Inr [(''type'', JString ''number'')]"
| "generateSchemaForType TFloat64 = Inr [(''type'', JString ''number'')]"
| "generateSchemaForType TBool = Inr [(''type'', JString ''boolean'')]"
| "generateSchemaForType (PtrTo t) = generateSchemaForType t"
| "generateSchemaForType t = Inl (UnsupportedType (Kind t))"
| "generateObjectSchema fs =
     (case object_fields fs [] [] of
        Inl err \<Rightarrow> Inl err
      | Inr (properties, requiredFields) \<Rightarrow>
          (let schema = [(''type'', JString ''object''), (''properties'', JObject properties)]
           in if length requiredFields > 0
              then Inr (AList.update ''required'' (JStrings requiredFields) schema)
              else Inr schema))"
| "object_fields [] properties requiredFields = Inr (properties, requiredFields)"
| "object_fields (SField name pkgPath anonymous tag ftype # fs) properties requiredFields =
     (if pkgPath \<noteq> [] then object_fields fs properties requiredFields
      else if anonymous then
        (case generateSchemaForType ftype of
           Inl err \<Rightarrow> Inl err
         | Inr embeddedSchema \<Rightarrow>
             (case map_of embeddedSchema ''properties'' of
                Some (JObject embedded) \<Rightarrow>
                  object_fields fs
                    (fold (\<lambda>(key, v). AList.update key v) embedded properties)
                    (case map_of embeddedSchema ''required'' of
                       Some (JStrings required) \<Rightarrow> requiredFields @ required
                     | _ \<Rightarrow> requiredFields)
              | _ \<Rightarrow> Inl PanicTypeAssertion))
      else
        (let jsonTag = tag_get tag ''json'' in
         if jsonTag = ''-'' then object_fields fs properties requiredFields
         else
           (let parts = split_on CHR '','' jsonTag;
                jsonName = (if hd parts = [] then name else hd parts);
                isOptional = (''omitempty'' \<in> set (tl parts));
                requiredFields' =
                  (if \<not> isOptional then requiredFields @ [jsonName] else requiredFields)
            in case generateSchemaForType ftype of
                 Inl err \<Rightarrow> Inl (FieldError name err)
               | Inr propSchema \<Rightarrow>
                   (let desc = parseSchemaTag (tag_get tag ''schema'') ''description'';
                        propSchema' =
                          (if desc \<noteq> [] then AList.update ''description'' (JString desc) propSchema
                           else propSchema)
                    in object_fields fs
                         (AList.update jsonName (JObject propSchema') properties)
                         requiredFields'))))"
| "generateArraySchema t =
     (case generateSchemaForType t of
        Inl err \<Rightarrow> Inl err
      | Inr elementSchema \<Rightarrow>
          Inr [(''type'', JString ''array''), (''items'', JObject elementSchema)])"

text \<open>
  \<open>GenerateSchema(instance)\<close>: the argument is the dynamic type of \<open>instance\<close>, \<open>None\<close>
  for a nil interface value, whose \<open>reflect.TypeOf\<close> is nil and whose \<open>Kind()\<close> panics.
\<close>

definition GenerateSchema :: "gtype option \<Rightarrow> gen_error + jmap" where
  "GenerateSchema instance =
     (case instance of
        None \<Rightarrow> Inl PanicNilType
      | Some t0 \<Rightarrow>
          (let t = (case t0 of PtrTo el \<Rightarrow> el | _ \<Rightarrow> t0)
           in if Kind t \<noteq> KStruct then Inl (ExpectedStruct (Kind t))
              else generateSchemaForType t))"

subsection \<open>RequestWithSchema\<close>

definition schema_request :: "string \<Rightarrow> string \<Rightarrow> jmap \<Rightarrow> ChatRequest" where
  "schema_request systemPrompt userPrompt jsonSchema =
     zero_request
       \<lparr>Messages := [\<lparr>Role = ''system'', Content = systemPrompt\<rparr>,
                     \<lparr>Role = ''user'', Content = userPrompt\<rparr>],
        JSONSchema := Some jsonSchema\<rparr>"

definition RequestWithSchema ::
  "world \<Rightarrow> Client \<Rightarrow> ctx_err option \<Rightarrow> string \<Rightarrow> string \<Rightarrow> gtype option \<Rightarrow>
     (error + unit) \<times> event list" where
  "RequestWithSchema w c ctx systemPrompt userPrompt target =
     (case GenerateSchema target of
        Inl err \<Rightarrow> (Inl (SchemaError err), [])
      | Inr jsonSchema \<Rightarrow>
          (case Chat w c ctx (schema_request systemPrompt userPrompt jsonSchema) of
             (Inl err, tr) \<Rightarrow> (Inl err, tr)
           | (Inr resp, tr) \<Rightarrow>
               (if length (Choices resp) = 0 then (Inl NoChoices, tr)
                else (case json_unmarshal_error w (Content (ChoiceMessage (Choices resp ! 0))) target of
                        Some msg \<Rightarrow> (Inl (UnmarshalError msg), tr)
                      | None \<Rightarrow> (Inr (), tr)))))"

section \<open>Notions used in the statements\<close>

definition retryable_reply :: "world \<Rightarrow> Client \<Rightarrow> ChatRequest \<Rightarrow> nat \<Rightarrow> bool" where
  "retryable_reply w c req i =
     (case fst (doRequest w c None i req) of
        Inr r \<Rightarrow> StatusCode r = 429 \<or> (500 \<le> StatusCode r \<and> StatusCode r \<le> 599)
      | Inl err \<Rightarrow> False)"

definition reply_status :: "world \<Rightarrow> Client \<Rightarrow> ChatRequest \<Rightarrow> nat \<Rightarrow> int" where
  "reply_status w c req i =
     (case fst (doRequest w c None i req) of Inr r \<Rightarrow> StatusCode r | Inl err \<Rightarrow> 0)"

definition on_wire :: "world \<Rightarrow> Client \<Rightarrow> ChatRequest \<Rightarrow> http_request \<Rightarrow> bool" where
  "on_wire w c req h = (json_marshal w req = Inr (Body h) \<and> h = build_request c (Body h))"

definition before_call :: "world \<Rightarrow> ctx_err option \<Rightarrow> int \<Rightarrow> event list \<Rightarrow> event list" where
  "before_call w ctx attempt tr =
     (if 0 < attempt then tr @ [Slept (backoff (float_out_of_range w) (attempt - 1))] else tr)"

definition effective_request :: "Client \<Rightarrow> ChatRequest \<Rightarrow> ChatRequest" where
  "effective_request c req = (if Model req = [] then req\<lparr>Model := model c\<rparr> else req)"

section \<open>Example inputs\<close>

text \<open>
  A world in which the context stays live, serialisation writes the model name, the body
  \<open>ok\<close> decodes to one choice, and \<open>json.Unmarshal\<close> accepts the content \<open>{}\<close> for a
  pointer target and fails for a target that is not a pointer; the same world with the
  context cancelled during the first backoff wait, with the deadline of the context
  passing during the second, and with \<open>ok\<close> decoding to a choice of content \<open>{}\<close>;
  scripted transports; a client and a request.
\<close>

definition demo_response :: ChatResponse where
  "demo_response =
     \<lparr>Choices = [\<lparr>ChoiceMessage = \<lparr>Role = ''assistant'', Content = ''Success after retry''\<rparr>,
                  FinishReason = ''stop''\<rparr>],
      TokenUsage = \<lparr>PromptTokens = 10, CompletionTokens = 5, TotalTokens = 15\<rparr>\<rparr>"

definition demo_world :: world where
  "demo_world =
     \<lparr>ctx_done_in_wait = (\<lambda>i. None),
      json_marshal = (\<lambda>req. Inr (Model req)),
      new_request_error = (\<lambda>url. None),
      json_decode = (\<lambda>body. if body = ''ok'' then Inr demo_response
                            else if body = ''empty'' then Inr (demo_response\<lparr>Choices := []\<rparr>)
                            else Inl ''invalid''),
      json_unmarshal_error =
        (\<lambda>content target.
           case target of
             Some (PtrTo t) \<Rightarrow> if content = ''{}'' then None else Some ''invalid character''
           | _ \<Rightarrow> Some ''json: Unmarshal(non-pointer)''),
      float_out_of_range = (\<lambda>n. 0x8000000000000000)\<rparr>"

definition cancel_world :: world where
  "cancel_world = demo_world\<lparr>ctx_done_in_wait := (\<lambda>i. if i = 1 then Some Canceled else None)\<rparr>"

definition deadline_world :: world where
  "deadline_world =
     demo_world\<lparr>ctx_done_in_wait := (\<lambda>i. if i = 2 then Some DeadlineExceeded else None)\<rparr>"

definition json_response :: ChatResponse where
  "json_response =
     \<lparr>Choices = [\<lparr>ChoiceMessage = \<lparr>Role = ''assistant'', Content = ''{}''\<rparr>,
                  FinishReason = ''stop''\<rparr>],
      TokenUsage = \<lparr>PromptTokens = 10, CompletionTokens = 1, TotalTokens = 11\<rparr>\<rparr>"

definition json_world :: world where
  "json_world =
     demo_world\<lparr>json_decode := (\<lambda>body. if body = ''ok'' then Inr json_response else Inl ''invalid'')\<rparr>"

definition flaky_client :: "nat \<Rightarrow> http_client" where
  "flaky_client k =
     (\<lambda>n h. if n < k then NetResponse \<lparr>StatusCode = 429, RespBody = []\<rparr>
            else NetResponse \<lparr>StatusCode = 200, RespBody = ''ok''\<rparr>)"

definition failing_client :: http_client where
  "failing_client = (\<lambda>n h. NetResponse \<lparr>StatusCode = 500, RespBody = []\<rparr>)"

definition cancelled_client :: http_client where
  "cancelled_client = (\<lambda>n h. NetCancelled DeadlineExceeded)"

definition demo_client :: "http_client \<Rightarrow> string \<Rightarrow> int \<Rightarrow> Client" where
  "demo_client hc mdl retries =
     NewClient hc ''http://localhost:11434'' ''test-key'' mdl [WithMaxRetries retries]"

definition demo_request :: "string \<Rightarrow> ChatRequest" where
  "demo_request mdl = zero_request\<lparr>Model := mdl, Messages := [\<lparr>Role = ''user'', Content = ''Hello''\<rparr>]\<rparr>"

subsection \<open>The schema generator, in the words of the specification\<close>

text \<open>
  A field is skipped when it is unexported, or when it is not embedded and its json tag
  is \<open>-\<close>. The external name of a field is the first comma-separated segment of its json
  tag, and the field's own name when that segment is empty. A tag carries the
  omit-if-empty marker when \<open>omitempty\<close> is one of the segments after the first.
\<close>

definition spec_skipped :: "sfield \<Rightarrow> bool" where
  "spec_skipped f = (PkgPath f \<noteq> [] \<or> (\<not> Anonymous f \<and> tag_get (Tag f) ''json'' = ''-''))"

definition spec_json_name :: "sfield \<Rightarrow> string" where
  "spec_json_name f =
     (if hd (split_on CHR '','' (tag_get (Tag f) ''json'')) = [] then FName f
      else hd (split_on CHR '','' (tag_get (Tag f) ''json'')))"

definition spec_omitempty :: "sfield \<Rightarrow> bool" where
  "spec_omitempty f = (''omitempty'' \<in> set (tl (split_on CHR '','' (tag_get (Tag f) ''json''))))"


definition schema_required :: "jmap \<Rightarrow> string list" where
  "schema_required schema =
     (case map_of schema ''required'' of Some (JStrings required) \<Rightarrow> required | _ \<Rightarrow> [])"

text \<open>A struct, or a pointer to one (through any number of pointers).\<close>

fun is_struct_type :: "gtype \<Rightarrow> bool" where
  "is_struct_type (StructOf fs) = True"
| "is_struct_type (PtrTo t) = is_struct_type t"
| "is_struct_type t = False"

text \<open>
  Every embedded field that the generator visits is a struct or a pointer to a struct.
\<close>

fun embeds_structs :: "gtype \<Rightarrow> bool"
and embeds_structs_fields :: "sfield list \<Rightarrow> bool"
where
  "embeds_structs (StructOf fs) = embeds_structs_fields fs"
| "embeds_structs (PtrTo t) = embeds_structs t"
| "embeds_structs (SliceOf t) = embeds_structs t"
| "embeds_structs (ArrayOf n t) = embeds_structs t"
| "embeds_structs t = True"
| "embeds_structs_fields [] = True"
| "embeds_structs_fields (SField name pkgPath anonymous tag ftype # fs) =
     ((spec_skipped (SField name pkgPath anonymous tag ftype)
       \<or> ((anonymous \<longrightarrow> is_struct_type ftype) \<and> embeds_structs ftype))
      \<and> embeds_structs_fields fs)"

text \<open>
  The kinds with a schema of their own: text, the integers, the floating-point numbers
  and the booleans.
\<close>

definition supported_scalar :: "kind \<Rightarrow> bool" where
  "supported_scalar k =
     (k \<in> {KString, KInt, KInt8, KInt16, KInt32, KInt64, KUint, KUint8, KUint16, KUint32,
           KUint64, KFloat32, KFloat64, KBool})"

text \<open>
  The first place, in the order of the fields and depth first, where a type of an
  unsupported kind is reached through pointers, slices, arrays and fields that are not
  skipped: the names of the fields on the way that are not embedded, the last one being
  the field where the unsupported type occurs, and the kind.
\<close>

fun spec_unsupported :: "gtype \<Rightarrow> (string list \<times> kind) option"
and spec_unsupported_fields :: "sfield list \<Rightarrow> (string list \<times> kind) option"
where
  "spec_unsupported (StructOf fs) = spec_unsupported_fields fs"
| "spec_unsupported (PtrTo t) = spec_unsupported t"
| "spec_unsupported (SliceOf t) = spec_unsupported t"
| "spec_unsupported (ArrayOf n t) = spec_unsupported t"
| "spec_unsupported t = (if supported_scalar (Kind t) then None else Some ([], Kind t))"
| "spec_unsupported_fields [] = None"
| "spec_unsupported_fields (SField name pkgPath anonymous tag ftype # fs) =
     (if spec_skipped (SField name pkgPath anonymous tag ftype) then spec_unsupported_fields fs
      else (case spec_unsupported ftype of
              Some (path, k) \<Rightarrow> Some (if anonymous then path else name # path, k)
            | None \<Rightarrow> spec_unsupported_fields fs))"

text \<open>The field named by the innermost wrapper of an error of the generator.\<close>

fun innermost_field :: "gen_error \<Rightarrow> string option" where
  "innermost_field (FieldError name (UnsupportedType k)) = Some name"
| "innermost_field (FieldError name err) = innermost_field err"
| "innermost_field err = None"

subsection \<open>Example types\<close>


definition hidden_map_struct :: gtype where
  "hidden_map_struct =
     StructOf [SField ''Name'' [] False [(''json'', ''name'')] TString,
               SField ''Meta'' [] False [(''json'', ''-'')] TMap]"

definition embedded_interface_struct :: gtype where
  "embedded_interface_struct = StructOf [SField ''Reader'' [] True [] TInterface]"

definition nested_map_struct :: gtype where
  "nested_map_struct =
     StructOf [SField ''Name'' [] False [(''json'', ''name'')] TString,
               SField ''Inner'' [] False [(''json'', ''inner'')]
                 (PtrTo (StructOf [SField ''Tags'' [] False [] (SliceOf TMap)]))]"

section \<open>Properties\<close>

lemma sends_append [simp]: "sends (xs @ ys) = sends xs @ sends ys"
  by (induction xs rule: sends.induct) auto

lemma sends_map_Sent [simp]: "sends (map Sent hs) = hs"
  by (induction hs) auto

lemma Body_build_request [simp]: "Body (build_request c body) = body"
  by (simp add: build_request_def)

lemma doRequest_cases:
  "(\<exists>msg. doRequest w c ctx n req = (Inl (MarshalError msg), ctx, []))
   \<or> (\<exists>msg. doRequest w c ctx n req = (Inl (CreateRequestError msg), ctx, []))
   \<or> (\<exists>body e. json_marshal w req = Inr body \<and>
         doRequest w c ctx n req =
           (Inl (TransportCancelled (ctx_after ctx e)), Some (ctx_after ctx e), [build_request c body]))
   \<or> (\<exists>body msg. json_marshal w req = Inr body \<and>
         doRequest w c ctx n req = (Inl (TransportError msg), ctx, [build_request c body]))
   \<or> (\<exists>body r. json_marshal w req = Inr body \<and>
         doRequest w c ctx n req = (Inr r, ctx, [build_request c body]))"
  by (auto simp: doRequest_def Let_def split: sum.splits option.splits net_outcome.splits)

lemma doRequest_sent:
  assumes "doRequest w c ctx n req = (res, ctx', sent)"
  shows "\<forall>h\<in>set sent. on_wire w c req h" and "length sent \<le> 1"
  using assms doRequest_cases [of w c ctx n req] by (auto simp: on_wire_def)

lemma doRequest_response:
  assumes "fst (doRequest w c ctx n req) = Inr r"
  shows "\<exists>body. json_marshal w req = Inr body \<and>
           doRequest w c ctx n req = (Inr r, ctx, [build_request c body])"
  using assms doRequest_cases [of w c ctx n req] by auto

lemma doRequest_cancelled:
  assumes "fst (doRequest w c ctx n req) = Inl (TransportCancelled e)"
  shows "\<exists>body. json_marshal w req = Inr body \<and>
           doRequest w c ctx n req = (Inl (TransportCancelled e), Some e, [build_request c body])"
  using assms doRequest_cases [of w c ctx n req] by auto

lemma chat_loop_exhausted:
  "\<not> attempt \<le> maxRetries c \<Longrightarrow>
     chat_loop w c req ctx attempt lastErr tr = (Inl (MaxRetriesExceeded lastErr), tr)"
  by (subst chat_loop.simps) simp

lemma chat_loop_Return:
  "attempt \<le> maxRetries c \<Longrightarrow> chat_attempt w c req ctx attempt tr = Return r \<Longrightarrow>
     chat_loop w c req ctx attempt lastErr tr = r"
  by (subst chat_loop.simps) simp

lemma chat_loop_Continue:
  "attempt \<le> maxRetries c \<Longrightarrow> chat_attempt w c req ctx attempt tr = Continue ctx' lastErr' tr' \<Longrightarrow>
     chat_loop w c req ctx attempt lastErr tr = chat_loop w c req ctx' (attempt + 1) lastErr' tr'"
  by (subst chat_loop.simps) simp

lemma backoff_wait_live:
  "backoff_wait w ctx attempt = Inr d \<longleftrightarrow>
     ctx = None \<and> ctx_done_in_wait w (nat attempt) = None \<and> d = backoff (float_out_of_range w) (attempt - 1)"
  by (auto simp: backoff_wait_def split: option.splits)

lemma chat_attempt_ctx_done:
  "0 < attempt \<Longrightarrow> backoff_wait w ctx attempt = Inl e \<Longrightarrow>
     chat_attempt w c req ctx attempt tr = Return (Inl (ContextError e), tr)"
  by (simp add: chat_attempt_def)

lemma chat_attempt_call:
  assumes "0 < attempt \<longrightarrow> (\<exists>d. backoff_wait w ctx attempt = Inr d)"
    and "doRequest w c ctx (nat attempt) req = (res, ctx', sent)"
  shows "chat_attempt w c req ctx attempt tr =
     (case res of
        Inl err \<Rightarrow> Continue ctx' (Some err) (before_call w ctx attempt tr @ map Sent sent)
      | Inr apiResp \<Rightarrow>
          if StatusCode apiResp \<ge> 500 \<or> StatusCode apiResp = 429
          then Continue ctx' (Some (HTTPStatusError (StatusCode apiResp)))
                 (before_call w ctx attempt tr @ map Sent sent)
          else Return (parseResponse w apiResp, before_call w ctx attempt tr @ map Sent sent))"
proof (cases "0 < attempt")
  case True
  then obtain d where d: "backoff_wait w ctx attempt = Inr d"
    using assms(1) by blast
  then have "d = backoff (float_out_of_range w) (attempt - 1)"
    by (simp add: backoff_wait_live)
  with True d assms(2) show ?thesis
    by (simp add: chat_attempt_def before_call_def split: sum.splits)
next
  case False
  with assms(2) show ?thesis
    by (simp add: chat_attempt_def before_call_def split: sum.splits)
qed

lemma sends_before_call [simp]: "sends (before_call w ctx attempt tr) = sends tr"
  by (simp add: before_call_def)

text \<open>What one iteration adds to the events: at most one request, the serialised req.\<close>

lemma chat_attempt_sends:
  "\<exists>sent. length sent \<le> 1 \<and> (\<forall>h\<in>set sent. on_wire w c req h) \<and>
     (case chat_attempt w c req ctx attempt tr of
        Return (res, tr') \<Rightarrow> sends tr' = sends tr @ sent
      | Continue ctx' lastErr' tr' \<Rightarrow> sends tr' = sends tr @ sent)"
proof (cases "0 < attempt \<longrightarrow> (\<exists>d. backoff_wait w ctx attempt = Inr d)")
  case True
  obtain res ctx' sent where dr: "doRequest w c ctx (nat attempt) req = (res, ctx', sent)"
    by (metis prod_cases3)
  have "length sent \<le> 1" "\<forall>h\<in>set sent. on_wire w c req h"
    using doRequest_sent [OF dr] by auto
  moreover have "case chat_attempt w c req ctx attempt tr of
        Return (res, tr') \<Rightarrow> sends tr' = sends tr @ sent
      | Continue ctx' lastErr' tr' \<Rightarrow> sends tr' = sends tr @ sent"
    by (simp add: chat_attempt_call [OF True dr] split: sum.splits prod.splits)
  ultimately show ?thesis by blast
next
  case False
  then obtain e where "0 < attempt" "backoff_wait w ctx attempt = Inl e"
    by (cases "backoff_wait w ctx attempt") auto
  then have "chat_attempt w c req ctx attempt tr = Return (Inl (ContextError e), tr)"
    by (rule chat_attempt_ctx_done)
  then show ?thesis by (intro exI [where x = "[]"]) simp
qed

lemma chat_loop_sends:
  "\<exists>sent. sends (snd (chat_loop w c req ctx attempt lastErr tr)) = sends tr @ sent \<and>
     (\<forall>h\<in>set sent. on_wire w c req h)"
proof (induction w c req ctx attempt lastErr tr rule: chat_loop.induct)
  case (1 w c req ctx attempt lastErr tr)
  show ?case
  proof (cases "attempt \<le> maxRetries c")
    case False
    then show ?thesis by (simp add: chat_loop_exhausted)
  next
    case True
    obtain sent where sent: "\<forall>h\<in>set sent. on_wire w c req h"
      and step: "case chat_attempt w c req ctx attempt tr of
        Return (res, tr') \<Rightarrow> sends tr' = sends tr @ sent
      | Continue ctx' lastErr' tr' \<Rightarrow> sends tr' = sends tr @ sent"
      using chat_attempt_sends [where w = w and c = c and req = req and ctx = ctx
          and attempt = attempt and tr = tr] by blast
    show ?thesis
    proof (cases "chat_attempt w c req ctx attempt tr")
      case (Return r)
      with step sent True show ?thesis
        by (cases r) (auto simp: chat_loop_Return)
    next
      case (Continue ctx' lastErr' tr')
      from "1.IH" [OF True Continue] obtain more where
        more: "sends (snd (chat_loop w c req ctx' (attempt + 1) lastErr' tr')) = sends tr' @ more"
          "\<forall>h\<in>set more. on_wire w c req h"
        by blast
      from step Continue have "sends tr' = sends tr @ sent" by simp
      with more sent have
        "sends (snd (chat_loop w c req ctx' (attempt + 1) lastErr' tr')) = sends tr @ (sent @ more)"
        "\<forall>h\<in>set (sent @ more). on_wire w c req h"
        by auto
      then show ?thesis
        unfolding chat_loop_Continue [OF True Continue] by blast
    qed
  qed
qed

lemma parseResponse_choices:
  "parseResponse w resp = Inr result \<Longrightarrow> Choices result \<noteq> []"
  by (auto simp: parseResponse_def split: if_splits sum.splits)

lemma chat_attempt_Return_cases:
  assumes "chat_attempt w c req ctx attempt tr = Return (Inr resp, tr')"
  shows "\<exists>apiResp. parseResponse w apiResp = Inr resp"
  using assms
  by (auto simp: chat_attempt_def Let_def
      split: option.splits sum.splits prod.splits bool.splits if_splits)

lemma chat_loop_success_choices:
  "fst (chat_loop w c req ctx attempt lastErr tr) = Inr resp \<Longrightarrow> Choices resp \<noteq> []"
proof (induction w c req ctx attempt lastErr tr rule: chat_loop.induct)
  case (1 w c req ctx attempt lastErr tr)
  show ?case
  proof (cases "attempt \<le> maxRetries c")
    case False
    with "1.prems" show ?thesis by (simp add: chat_loop_exhausted)
  next
    case True
    show ?thesis
    proof (cases "chat_attempt w c req ctx attempt tr")
      case (Return r)
      with "1.prems" True have "r = (Inr resp, snd r)"
        by (cases r) (simp add: chat_loop_Return)
      with Return chat_attempt_Return_cases [of w c req ctx attempt tr resp "snd r"]
      show ?thesis by (auto dest: parseResponse_choices)
    next
      case (Continue ctx' lastErr' tr')
      with "1.prems" True "1.IH" [OF True Continue] show ?thesis
        by (simp add: chat_loop_Continue)
    qed
  qed
qed

lemmas demo_defs = demo_client_def NewClient_def WithMaxRetries_def demo_request_def zero_request_def
  demo_world_def cancel_world_def flaky_client_def failing_client_def cancelled_client_def
  demo_response_def effective_request_def

lemmas run_defs = Chat_def chat_attempt_def doRequest_def backoff_wait_def build_request_def
  ctx_after_def parseResponse_def Let_def

lemma Chat_effective: "Chat w c ctx req = chat_loop w c (effective_request c req) ctx 0 None []"
  by (simp add: Chat_def effective_request_def)

lemma chat_loop_ctx_done:
  "0 < attempt \<Longrightarrow> attempt \<le> maxRetries c \<Longrightarrow> backoff_wait w ctx attempt = Inl e \<Longrightarrow>
     chat_loop w c req ctx attempt lastErr tr = (Inl (ContextError e), tr)"
  by (simp add: chat_loop_Return chat_attempt_ctx_done)

subsection \<open>A network attempt that fails by cancellation\<close>

text \<open>
  C1 (as amended). When the call of an attempt fails because the caller's context was
  cancelled or timed out, \<open>Chat\<close> sends no further request. If the attempt was not the last
  one allowed (\<open>attempt < maxRetries\<close>), the error is kept as \<open>lastErr\<close>, the loop goes on
  and \<open>Chat\<close> returns \<open>ctx.Err()\<close> from the \<open>select\<close> of the next iteration; if it was the
  last one (\<open>attempt = maxRetries\<close>), \<open>Chat\<close> returns the max-retries error that wraps the
  error of the call.
\<close>

theorem Chat_cancelled_attempt:
  assumes "0 \<le> attempt" and "attempt \<le> maxRetries c"
    and "0 < attempt \<longrightarrow> (\<exists>d. backoff_wait w ctx attempt = Inr d)"
    and "fst (doRequest w c ctx (nat attempt) req) = Inl (TransportCancelled e)"
  shows "fst (chat_loop w c req ctx attempt lastErr tr) =
           (if attempt < maxRetries c then Inl (ContextError e)
            else Inl (MaxRetriesExceeded (Some (TransportCancelled e))))
         \<and> (\<exists>h. snd (chat_loop w c req ctx attempt lastErr tr) =
                  before_call w ctx attempt tr @ [Sent h])"
proof -
  obtain body where dr: "doRequest w c ctx (nat attempt) req =
      (Inl (TransportCancelled e), Some e, [build_request c body])"
    using doRequest_cancelled [OF assms(4)] by blast
  let ?tr = "before_call w ctx attempt tr @ [Sent (build_request c body)]"
  have "chat_attempt w c req ctx attempt tr = Continue (Some e) (Some (TransportCancelled e)) ?tr"
    using chat_attempt_call [OF assms(3) dr] by simp
  then have loop: "chat_loop w c req ctx attempt lastErr tr =
      chat_loop w c req (Some e) (attempt + 1) (Some (TransportCancelled e)) ?tr"
    using assms(2) by (rule chat_loop_Continue [rotated])
  show ?thesis
  proof (cases "attempt < maxRetries c")
    case True
    have "backoff_wait w (Some e) (attempt + 1) = Inl e"
      by (simp add: backoff_wait_def)
    with True assms(1) have "chat_loop w c req (Some e) (attempt + 1) (Some (TransportCancelled e)) ?tr =
        (Inl (ContextError e), ?tr)"
      by (intro chat_loop_ctx_done) auto
    with loop True show ?thesis by simp
  next
    case False
    then have "chat_loop w c req (Some e) (attempt + 1) (Some (TransportCancelled e)) ?tr =
        (Inl (MaxRetriesExceeded (Some (TransportCancelled e))), ?tr)"
      by (intro chat_loop_exhausted) simp
    with loop False show ?thesis by simp
  qed
qed

theorem Chat_cancelled_attempt_witness:
  "fst (Chat demo_world (demo_client cancelled_client ''m'' 3) None (demo_request ''gpt'')) =
     Inl (ContextError DeadlineExceeded)
   \<and> length (sends (snd (Chat demo_world (demo_client cancelled_client ''m'' 3) None (demo_request ''gpt'')))) = 1
   \<and> fst (chat_loop demo_world (demo_client cancelled_client ''m'' 0) (demo_request ''gpt'') None 0 None []) =
     Inl (MaxRetriesExceeded (Some (TransportCancelled DeadlineExceeded)))"
proof -
  let ?c = "demo_client cancelled_client ''m'' 3"
  let ?d = "demo_client cancelled_client ''m'' 0"
  let ?r = "demo_request ''gpt''"
  have c: "(0::int) \<le> 0" "0 \<le> maxRetries ?c"
    "0 < (0::int) \<longrightarrow> (\<exists>d. backoff_wait demo_world None 0 = Inr d)"
    "fst (doRequest demo_world ?c None (nat 0) ?r) = Inl (TransportCancelled DeadlineExceeded)"
    by (simp_all add: demo_defs doRequest_def ctx_after_def)
  have d: "(0::int) \<le> 0" "0 \<le> maxRetries ?d"
    "0 < (0::int) \<longrightarrow> (\<exists>d. backoff_wait demo_world None 0 = Inr d)"
    "fst (doRequest demo_world ?d None (nat 0) ?r) = Inl (TransportCancelled DeadlineExceeded)"
    by (simp_all add: demo_defs doRequest_def ctx_after_def)
  have m: "maxRetries ?c = 3" "maxRetries ?d = 0"
    by (simp_all add: demo_defs)
  from Chat_cancelled_attempt [OF c, of None "[]"] Chat_cancelled_attempt [OF d, of None "[]"] m
  show ?thesis
    by (auto simp: Chat_effective effective_request_def demo_request_def zero_request_def
        before_call_def)
qed

theorem Chat_cancelled_last_attempt_counterexample:
  "fst (doRequest demo_world (demo_client cancelled_client ''m'' 0) None 0 (demo_request ''gpt'')) =
     Inl (TransportCancelled DeadlineExceeded)
   \<and> fst (Chat demo_world (demo_client cancelled_client ''m'' 0) None (demo_request ''gpt'')) =
     Inl (MaxRetriesExceeded (Some (TransportCancelled DeadlineExceeded)))"
  by (simp add: chat_loop.simps run_defs demo_defs)

lemma retryable_reply_response:
  assumes "retryable_reply w c req i"
  shows "\<exists>r body. doRequest w c None i req = (Inr r, None, [build_request c body]) \<and>
           (StatusCode r = 429 \<or> 500 \<le> StatusCode r) \<and> reply_status w c req i = StatusCode r"
proof -
  from assms obtain r where r: "fst (doRequest w c None i req) = Inr r"
    and st: "StatusCode r = 429 \<or> 500 \<le> StatusCode r"
    by (auto simp: retryable_reply_def split: sum.splits)
  from doRequest_response [OF r] r st show ?thesis
    by (auto simp: reply_status_def)
qed

lemma chat_loop_retry_step:
  assumes "retryable_reply w c req a" and "0 < a \<longrightarrow> ctx_done_in_wait w a = None"
    and "int a \<le> maxRetries c"
  shows "\<exists>tr'. chat_loop w c req None (int a) lastErr tr =
           chat_loop w c req None (int (Suc a)) (Some (HTTPStatusError (reply_status w c req a))) tr'
         \<and> length (sends tr') = Suc (length (sends tr))"
proof -
  obtain r body where dr: "doRequest w c None (nat (int a)) req = (Inr r, None, [build_request c body])"
    and st: "StatusCode r = 429 \<or> 500 \<le> StatusCode r" "reply_status w c req a = StatusCode r"
    using retryable_reply_response [OF assms(1)] by auto
  have wait: "0 < int a \<longrightarrow> (\<exists>d. backoff_wait w None (int a) = Inr d)"
    using assms(2) by (simp add: backoff_wait_live)
  let ?tr = "before_call w None (int a) tr @ map Sent [build_request c body]"
  have "chat_attempt w c req None (int a) tr =
      Continue None (Some (HTTPStatusError (reply_status w c req a))) ?tr"
    using chat_attempt_call [OF wait dr] st by auto
  from chat_loop_Continue [OF assms(3) this]
  have "chat_loop w c req None (int a) lastErr tr =
      chat_loop w c req None (int (Suc a)) (Some (HTTPStatusError (reply_status w c req a))) ?tr"
    by (simp add: add.commute)
  moreover have "length (sends ?tr) = Suc (length (sends tr))" by simp
  ultimately show ?thesis by blast
qed

lemma chat_loop_retry_run:
  assumes "\<forall>i. a \<le> i \<and> i < a + n \<longrightarrow> retryable_reply w c req i"
    and "\<forall>i. 0 < i \<and> a \<le> i \<and> i < a + n \<longrightarrow> ctx_done_in_wait w i = None"
    and "int (a + n) \<le> maxRetries c + 1"
  shows "\<exists>lastErr' tr'.
           chat_loop w c req None (int a) lastErr tr = chat_loop w c req None (int (a + n)) lastErr' tr'
         \<and> length (sends tr') = length (sends tr) + n
         \<and> lastErr' = (if n = 0 then lastErr
                        else Some (HTTPStatusError (reply_status w c req (a + n - 1))))"
  using assms
proof (induction n arbitrary: a lastErr tr)
  case 0
  show ?case by (intro exI [where x = lastErr] exI [where x = tr]) simp
next
  case (Suc n)
  have "retryable_reply w c req a" "0 < a \<longrightarrow> ctx_done_in_wait w a = None" "int a \<le> maxRetries c"
    using Suc.prems by auto
  from chat_loop_retry_step [OF this, of lastErr tr] obtain tr1 where
    step: "chat_loop w c req None (int a) lastErr tr =
        chat_loop w c req None (int (Suc a)) (Some (HTTPStatusError (reply_status w c req a))) tr1"
    and len1: "length (sends tr1) = Suc (length (sends tr))"
    by blast
  have "\<forall>i. Suc a \<le> i \<and> i < Suc a + n \<longrightarrow> retryable_reply w c req i"
    "\<forall>i. 0 < i \<and> Suc a \<le> i \<and> i < Suc a + n \<longrightarrow> ctx_done_in_wait w i = None"
    "int (Suc a + n) \<le> maxRetries c + 1"
    using Suc.prems by auto
  from Suc.IH [OF this, of "Some (HTTPStatusError (reply_status w c req a))" tr1]
  obtain lastErr' tr' where
    run: "chat_loop w c req None (int (Suc a)) (Some (HTTPStatusError (reply_status w c req a))) tr1 =
        chat_loop w c req None (int (Suc a + n)) lastErr' tr'"
    and len: "length (sends tr') = length (sends tr1) + n"
    and last: "lastErr' = (if n = 0 then Some (HTTPStatusError (reply_status w c req a))
                           else Some (HTTPStatusError (reply_status w c req (Suc a + n - 1))))"
    by blast
  have "chat_loop w c req None (int a) lastErr tr = chat_loop w c req None (int (a + Suc n)) lastErr' tr'"
    using step run by simp
  moreover have "length (sends tr') = length (sends tr) + Suc n"
    using len len1 by simp
  moreover have "lastErr' = Some (HTTPStatusError (reply_status w c req (a + Suc n - 1)))"
    using last by (cases n) auto
  ultimately show ?case by auto
qed

subsection \<open>Retries until success, and exhaustion\<close>

text \<open>
  C2. With a live context: if the first \<open>k \<le> maxRetries\<close> calls are answered with
  status 429 or 5xx and the next one with 200 and a body that decodes to at least one
  choice, \<open>Chat\<close> returns the decoded response after exactly \<open>k + 1\<close> requests; and if
  every call of a client with \<open>maxRetries = M\<close> is answered with 429 or 5xx, \<open>Chat\<close> sends
  exactly \<open>M + 1\<close> requests and returns the max-retries error that wraps the error
  recorded for the last status.
\<close>

theorem Chat_retry_attempts:
  "(int k \<le> maxRetries c
      \<and> (\<forall>i<k. retryable_reply w c (effective_request c req) i)
      \<and> (\<forall>i. 0 < i \<and> i \<le> k \<longrightarrow> ctx_done_in_wait w i = None)
      \<and> fst (doRequest w c None k (effective_request c req)) = Inr ok
      \<and> StatusCode ok = 200 \<and> json_decode w (RespBody ok) = Inr resp \<and> Choices resp \<noteq> []
    \<longrightarrow> fst (Chat w c None req) = Inr resp
        \<and> length (sends (snd (Chat w c None req))) = k + 1)
   \<and> (maxRetries c = int M
      \<and> (\<forall>i\<le>M. retryable_reply w c (effective_request c req) i)
      \<and> (\<forall>i. 0 < i \<and> i \<le> M \<longrightarrow> ctx_done_in_wait w i = None)
    \<longrightarrow> fst (Chat w c None req) =
          Inl (MaxRetriesExceeded (Some (HTTPStatusError (reply_status w c (effective_request c req) M))))
        \<and> length (sends (snd (Chat w c None req))) = M + 1)"
proof (intro conjI impI)
  let ?req = "effective_request c req"
  assume a: "int k \<le> maxRetries c
      \<and> (\<forall>i<k. retryable_reply w c ?req i)
      \<and> (\<forall>i. 0 < i \<and> i \<le> k \<longrightarrow> ctx_done_in_wait w i = None)
      \<and> fst (doRequest w c None k ?req) = Inr ok
      \<and> StatusCode ok = 200 \<and> json_decode w (RespBody ok) = Inr resp \<and> Choices resp \<noteq> []"
  then have "\<forall>i. 0 \<le> i \<and> i < 0 + k \<longrightarrow> retryable_reply w c ?req i"
    "\<forall>i. 0 < i \<and> 0 \<le> i \<and> i < 0 + k \<longrightarrow> ctx_done_in_wait w i = None"
    "int (0 + k) \<le> maxRetries c + 1"
    by auto
  from chat_loop_retry_run [OF this, of None "[]"] obtain lastErr' tr' where
    run: "chat_loop w c ?req None 0 None [] = chat_loop w c ?req None (int k) lastErr' tr'"
    and len: "length (sends tr') = k"
    by auto
  obtain body where dr: "doRequest w c None (nat (int k)) ?req = (Inr ok, None, [build_request c body])"
    using a doRequest_response [of w c None k ?req ok] by auto
  have wait: "0 < int k \<longrightarrow> (\<exists>d. backoff_wait w None (int k) = Inr d)"
    using a by (simp add: backoff_wait_live)
  let ?tr = "before_call w None (int k) tr' @ map Sent [build_request c body]"
  have "parseResponse w ok = Inr resp"
    using a by (simp add: parseResponse_def)
  then have "chat_attempt w c ?req None (int k) tr' = Return (Inr resp, ?tr)"
    using chat_attempt_call [OF wait dr, of tr'] a by simp
  then have "chat_loop w c ?req None (int k) lastErr' tr' = (Inr resp, ?tr)"
    using a by (intro chat_loop_Return) auto
  with run len show "fst (Chat w c None req) = Inr resp"
    and "length (sends (snd (Chat w c None req))) = k + 1"
    by (simp_all add: Chat_effective)
next
  let ?req = "effective_request c req"
  assume a: "maxRetries c = int M
      \<and> (\<forall>i\<le>M. retryable_reply w c ?req i)
      \<and> (\<forall>i. 0 < i \<and> i \<le> M \<longrightarrow> ctx_done_in_wait w i = None)"
  then have "\<forall>i. 0 \<le> i \<and> i < 0 + Suc M \<longrightarrow> retryable_reply w c ?req i"
    "\<forall>i. 0 < i \<and> 0 \<le> i \<and> i < 0 + Suc M \<longrightarrow> ctx_done_in_wait w i = None"
    "int (0 + Suc M) \<le> maxRetries c + 1"
    by auto
  from chat_loop_retry_run [OF this, of None "[]"] obtain tr' where
    run: "chat_loop w c ?req None 0 None [] =
        chat_loop w c ?req None (int (Suc M)) (Some (HTTPStatusError (reply_status w c ?req M))) tr'"
    and len: "length (sends tr') = Suc M"
    by auto
  have "\<not> int (Suc M) \<le> maxRetries c" using a by simp
  from chat_loop_exhausted [OF this] run len
  show "fst (Chat w c None req) =
          Inl (MaxRetriesExceeded (Some (HTTPStatusError (reply_status w c ?req M))))"
    and "length (sends (snd (Chat w c None req))) = M + 1"
    by (simp_all add: Chat_effective)
qed

theorem Chat_retry_attempts_witness:
  "fst (Chat demo_world (demo_client (flaky_client 2) ''model'' 3) None (demo_request ''gpt-3.5-turbo'')) =
     Inr demo_response
   \<and> length (sends (snd (Chat demo_world (demo_client (flaky_client 2) ''model'' 3) None
        (demo_request ''gpt-3.5-turbo'')))) = 3
   \<and> fst (Chat demo_world (demo_client failing_client ''model'' 3) None (demo_request ''gpt-3.5-turbo'')) =
     Inl (MaxRetriesExceeded (Some (HTTPStatusError 500)))
   \<and> length (sends (snd (Chat demo_world (demo_client failing_client ''model'' 3) None
        (demo_request ''gpt-3.5-turbo'')))) = 4"
proof -
  let ?r = "demo_request ''gpt-3.5-turbo''"
  let ?c = "demo_client (flaky_client 2) ''model'' 3"
  let ?d = "demo_client failing_client ''model'' 3"
  let ?ok = "\<lparr>StatusCode = 200, RespBody = ''ok''\<rparr>"
  have eff: "effective_request ?c ?r = ?r" "effective_request ?d ?r = ?r"
    by (simp_all add: demo_defs)
  have reply: "\<And>i. doRequest demo_world ?c None i ?r =
      (Inr (if i < 2 then \<lparr>StatusCode = 429, RespBody = []\<rparr> else ?ok), None,
       [build_request ?c ''gpt-3.5-turbo''])"
    by (simp add: demo_defs doRequest_def)
  have fail: "\<And>i. doRequest demo_world ?d None i ?r =
      (Inr \<lparr>StatusCode = 500, RespBody = []\<rparr>, None, [build_request ?d ''gpt-3.5-turbo''])"
    by (simp add: demo_defs doRequest_def)
  have h1: "int 2 \<le> maxRetries ?c
      \<and> (\<forall>i<2. retryable_reply demo_world ?c (effective_request ?c ?r) i)
      \<and> (\<forall>i. 0 < i \<and> i \<le> 2 \<longrightarrow> ctx_done_in_wait demo_world i = None)
      \<and> fst (doRequest demo_world ?c None 2 (effective_request ?c ?r)) = Inr ?ok
      \<and> StatusCode ?ok = 200 \<and> json_decode demo_world (RespBody ?ok) = Inr demo_response
      \<and> Choices demo_response \<noteq> []"
    unfolding eff retryable_reply_def reply
    by (simp add: demo_defs)
  have h2: "maxRetries ?d = int 3
      \<and> (\<forall>i\<le>3. retryable_reply demo_world ?d (effective_request ?d ?r) i)
      \<and> (\<forall>i. 0 < i \<and> i \<le> 3 \<longrightarrow> ctx_done_in_wait demo_world i = None)"
    unfolding eff retryable_reply_def fail
    by (simp add: demo_defs)
  have st: "reply_status demo_world ?d (effective_request ?d ?r) 3 = 500"
    unfolding eff reply_status_def fail by simp
  from Chat_retry_attempts [of 2 ?c demo_world ?r ?ok demo_response]
    Chat_retry_attempts [of _ ?d demo_world ?r _ _ 3] h1 h2 st
  show ?thesis by simp
qed

subsection \<open>The model name on the wire\<close>

text \<open>
  C5 (as amended). Every request \<open>Chat\<close> sends is the serialisation of the caller's
  request with the model name set to the caller's \<open>Model\<close> when that is not empty (the
  request is then sent unchanged) and to the client's default model otherwise. The model
  name sent is therefore non-empty exactly when the caller's \<open>Model\<close> or the client's
  default model is non-empty.
\<close>

theorem Chat_model_sent:
  "(\<forall>h\<in>set (sends (snd (Chat w c ctx req))). on_wire w c (effective_request c req) h)
   \<and> Model (effective_request c req) = (if Model req = [] then model c else Model req)
   \<and> (Model req \<noteq> [] \<longrightarrow> effective_request c req = req)
   \<and> (Model req = [] \<longrightarrow> effective_request c req = req\<lparr>Model := model c\<rparr>)
   \<and> (Model (effective_request c req) \<noteq> [] \<longleftrightarrow> Model req \<noteq> [] \<or> model c \<noteq> [])"
proof -
  obtain sent where "sends (snd (Chat w c ctx req)) = sends [] @ sent"
    and "\<forall>h\<in>set sent. on_wire w c (effective_request c req) h"
    unfolding Chat_effective
    using chat_loop_sends [of w c "effective_request c req" ctx 0 None "[]"] by blast
  then show ?thesis
    by (simp add: effective_request_def)
qed

theorem Chat_model_sent_witness:
  "sends (snd (Chat demo_world (demo_client (flaky_client 0) ''model'' 3) None (demo_request []))) =
     [build_request (demo_client (flaky_client 0) ''model'' 3) ''model'']
   \<and> on_wire demo_world (demo_client (flaky_client 0) ''model'' 3)
        ((demo_request [])\<lparr>Model := ''model''\<rparr>)
        (build_request (demo_client (flaky_client 0) ''model'' 3) ''model'')
   \<and> sends (snd (Chat demo_world (demo_client (flaky_client 0) ''model'' 3) None (demo_request ''gpt''))) =
     [build_request (demo_client (flaky_client 0) ''model'' 3) ''gpt'']
   \<and> on_wire demo_world (demo_client (flaky_client 0) ''model'' 3) (demo_request ''gpt'')
        (build_request (demo_client (flaky_client 0) ''model'' 3) ''gpt'')"
proof -
  let ?c = "demo_client (flaky_client 0) ''model'' 3"
  have s1: "sends (snd (Chat demo_world ?c None (demo_request []))) = [build_request ?c ''model'']"
    by (simp add: chat_loop.simps run_defs demo_defs)
  have s2: "sends (snd (Chat demo_world ?c None (demo_request ''gpt''))) = [build_request ?c ''gpt'']"
    by (simp add: chat_loop.simps run_defs demo_defs)
  have m: "model ?c = ''model''" "Model (demo_request []) = []" "Model (demo_request ''gpt'') \<noteq> []"
    by (simp_all add: demo_defs)
  from Chat_model_sent [of demo_world ?c None "demo_request []"]
    Chat_model_sent [of demo_world ?c None "demo_request ''gpt''"] s1 s2 m
  show ?thesis by auto
qed

theorem Chat_empty_model_counterexample:
  "Model (demo_request []) = [] \<and> model (demo_client (flaky_client 0) [] 3) = []
   \<and> sends (snd (Chat demo_world (demo_client (flaky_client 0) [] 3) None (demo_request []))) =
       [build_request (demo_client (flaky_client 0) [] 3) []]
   \<and> on_wire demo_world (demo_client (flaky_client 0) [] 3) (demo_request [])
       (build_request (demo_client (flaky_client 0) [] 3) [])
   \<and> fst (Chat demo_world (demo_client (flaky_client 0) [] 3) None (demo_request [])) = Inr demo_response"
  by (simp add: chat_loop.simps run_defs demo_defs on_wire_def)

subsection \<open>parseResponse\<close>

text \<open>
  C6. \<open>parseResponse\<close> returns, for a status other than 200, an error that carries the
  status code and the body text; for status 200 and a body that does not decode, a decode
  error; for status 200 and a body that decodes to no choices, an error; and otherwise
  the decoded response. So a response it returns has at least one choice.
\<close>

theorem parseResponse_cases:
  "(StatusCode resp \<noteq> 200 \<longrightarrow>
      parseResponse w resp = Inl (APIError (StatusCode resp) (RespBody resp)))
   \<and> (StatusCode resp = 200 \<and> json_decode w (RespBody resp) = Inl msg \<longrightarrow>
      parseResponse w resp = Inl (DecodeError msg))
   \<and> (StatusCode resp = 200 \<and> json_decode w (RespBody resp) = Inr result \<and> Choices result = [] \<longrightarrow>
      parseResponse w resp = Inl NoChoices)
   \<and> (StatusCode resp = 200 \<and> json_decode w (RespBody resp) = Inr result \<and> Choices result \<noteq> [] \<longrightarrow>
      parseResponse w resp = Inr result)
   \<and> (parseResponse w resp = Inr result \<longrightarrow>
      StatusCode resp = 200 \<and> json_decode w (RespBody resp) = Inr result \<and> 1 \<le> length (Choices result))"
  by (auto simp: parseResponse_def Suc_le_eq split: sum.splits)

theorem parseResponse_cases_witness:
  "parseResponse demo_world \<lparr>StatusCode = 404, RespBody = ''not found''\<rparr> = Inl (APIError 404 ''not found'')
   \<and> parseResponse demo_world \<lparr>StatusCode = 200, RespBody = ''<html>''\<rparr> = Inl (DecodeError ''invalid'')
   \<and> parseResponse demo_world \<lparr>StatusCode = 200, RespBody = ''empty''\<rparr> = Inl NoChoices
   \<and> parseResponse demo_world \<lparr>StatusCode = 200, RespBody = ''ok''\<rparr> = Inr demo_response
   \<and> 1 \<le> length (Choices demo_response)"
proof -
  have d: "json_decode demo_world ''<html>'' = Inl ''invalid''"
    "json_decode demo_world ''empty'' = Inr (demo_response\<lparr>Choices := []\<rparr>)"
    "json_decode demo_world ''ok'' = Inr demo_response"
    "Choices (demo_response\<lparr>Choices := []\<rparr>) = []" "Choices demo_response \<noteq> []"
    by (simp_all add: demo_world_def demo_response_def)
  have ok: "parseResponse demo_world \<lparr>StatusCode = 200, RespBody = ''ok''\<rparr> = Inr demo_response"
    using parseResponse_cases [of "\<lparr>StatusCode = 200, RespBody = ''ok''\<rparr>" demo_world _ demo_response] d
    by simp
  from parseResponse_cases [of "\<lparr>StatusCode = 404, RespBody = ''not found''\<rparr>" demo_world]
    parseResponse_cases [of "\<lparr>StatusCode = 200, RespBody = ''<html>''\<rparr>" demo_world "''invalid''"]
    parseResponse_cases [of "\<lparr>StatusCode = 200, RespBody = ''empty''\<rparr>" demo_world _
      "demo_response\<lparr>Choices := []\<rparr>"]
    parseResponse_cases [of "\<lparr>StatusCode = 200, RespBody = ''ok''\<rparr>" demo_world _ demo_response]
    d ok
  show ?thesis by simp
qed

subsection \<open>SimpleRequest\<close>

lemma Chat_success_choices:
  "fst (Chat w c ctx req) = Inr resp \<Longrightarrow> Choices resp \<noteq> []"
  unfolding Chat_effective by (rule chat_loop_success_choices)

text \<open>
  C7. \<open>SimpleRequest\<close> builds, for an empty system prompt, exactly one message, of role
  \<open>user\<close> with the user prompt as content, and for a non-empty system prompt exactly two,
  \<open>system\<close> with the system prompt and then \<open>user\<close> with the user prompt; the requests it
  sends are serialisations of this request (with the client's default model). When
  \<open>Chat\<close> succeeds it returns the content of the first choice; for a response without
  choices its result is the error "no choices in response".
\<close>

theorem SimpleRequest_messages_and_result:
  "(systemPrompt = [] \<longrightarrow>
      Messages (simple_request systemPrompt userPrompt) = [\<lparr>Role = ''user'', Content = userPrompt\<rparr>])
   \<and> (systemPrompt \<noteq> [] \<longrightarrow>
      Messages (simple_request systemPrompt userPrompt) =
        [\<lparr>Role = ''system'', Content = systemPrompt\<rparr>, \<lparr>Role = ''user'', Content = userPrompt\<rparr>])
   \<and> (\<forall>h\<in>set (sends (snd (SimpleRequest w c ctx systemPrompt userPrompt))).
        on_wire w c ((simple_request systemPrompt userPrompt)\<lparr>Model := model c\<rparr>) h)
   \<and> snd (SimpleRequest w c ctx systemPrompt userPrompt) =
       snd (Chat w c ctx (simple_request systemPrompt userPrompt))
   \<and> (fst (Chat w c ctx (simple_request systemPrompt userPrompt)) = Inr resp \<longrightarrow>
        fst (SimpleRequest w c ctx systemPrompt userPrompt) = first_choice_content resp
        \<and> first_choice_content resp = Inr (Content (ChoiceMessage (hd (Choices resp)))))
   \<and> (fst (Chat w c ctx (simple_request systemPrompt userPrompt)) = Inl err \<longrightarrow>
        fst (SimpleRequest w c ctx systemPrompt userPrompt) = Inl err)
   \<and> (Choices resp' = [] \<longrightarrow> first_choice_content resp' = Inl NoChoices)
   \<and> (Choices resp' \<noteq> [] \<longrightarrow>
        first_choice_content resp' = Inr (Content (ChoiceMessage (hd (Choices resp')))))"
proof -
  let ?req = "simple_request systemPrompt userPrompt"
  have msgs: "Messages ?req =
      (if systemPrompt = [] then [\<lparr>Role = ''user'', Content = userPrompt\<rparr>]
       else [\<lparr>Role = ''system'', Content = systemPrompt\<rparr>, \<lparr>Role = ''user'', Content = userPrompt\<rparr>])"
    by (simp add: simple_request_def)
  have eff: "effective_request c ?req = ?req\<lparr>Model := model c\<rparr>"
    by (simp add: effective_request_def simple_request_def zero_request_def)
  have tr: "snd (SimpleRequest w c ctx systemPrompt userPrompt) = snd (Chat w c ctx ?req)"
    by (simp add: SimpleRequest_def split: prod.splits sum.splits)
  obtain sent where "sends (snd (Chat w c ctx ?req)) = sends [] @ sent"
    and "\<forall>h\<in>set sent. on_wire w c (effective_request c ?req) h"
    unfolding Chat_effective
    using chat_loop_sends [of w c "effective_request c ?req" ctx 0 None "[]"] by blast
  then have wire: "\<forall>h\<in>set (sends (snd (SimpleRequest w c ctx systemPrompt userPrompt))).
      on_wire w c (?req\<lparr>Model := model c\<rparr>) h"
    by (simp add: tr eff)
  have first: "\<And>r. Choices r \<noteq> [] \<Longrightarrow>
      first_choice_content r = Inr (Content (ChoiceMessage (hd (Choices r))))"
    by (simp add: first_choice_content_def hd_conv_nth)
  have res: "fst (SimpleRequest w c ctx systemPrompt userPrompt) =
      (case fst (Chat w c ctx ?req) of Inl e \<Rightarrow> Inl e | Inr r \<Rightarrow> first_choice_content r)"
    by (simp add: SimpleRequest_def split: prod.splits sum.splits)
  show ?thesis
    using msgs wire tr first res Chat_success_choices [of w c ctx ?req resp]
    by (auto simp: first_choice_content_def)
qed

theorem SimpleRequest_messages_and_result_witness:
  "Messages (simple_request [] ''Hello'') = [\<lparr>Role = ''user'', Content = ''Hello''\<rparr>]
   \<and> Messages (simple_request ''You are a helpful assistant.'' ''Hello'') =
       [\<lparr>Role = ''system'', Content = ''You are a helpful assistant.''\<rparr>,
        \<lparr>Role = ''user'', Content = ''Hello''\<rparr>]
   \<and> fst (SimpleRequest demo_world (demo_client (flaky_client 0) ''model'' 3) None [] ''Hello'') =
       Inr ''Success after retry''
   \<and> fst (SimpleRequest demo_world (demo_client failing_client ''model'' 0) None [] ''Hello'') =
       Inl (MaxRetriesExceeded (Some (HTTPStatusError 500)))
   \<and> first_choice_content (demo_response\<lparr>Choices := []\<rparr>) = Inl NoChoices
   \<and> on_wire demo_world (demo_client (flaky_client 0) ''model'' 3)
       ((simple_request [] ''Hello'')\<lparr>Model := ''model''\<rparr>)
       (build_request (demo_client (flaky_client 0) ''model'' 3) ''model'')"
proof -
  let ?c = "demo_client (flaky_client 0) ''model'' 3"
  let ?d = "demo_client failing_client ''model'' 0"
  let ?e = "demo_response\<lparr>Choices := []\<rparr>"
  have c1: "Chat demo_world ?c None (simple_request [] ''Hello'') =
      (Inr demo_response, [Sent (build_request ?c ''model'')])"
    by (simp add: chat_loop.simps run_defs demo_defs simple_request_def)
  have c2: "fst (Chat demo_world ?d None (simple_request [] ''Hello'')) =
      Inl (MaxRetriesExceeded (Some (HTTPStatusError 500)))"
    by (simp add: chat_loop.simps run_defs demo_defs simple_request_def)
  have f: "Choices ?e = []" "Choices demo_response \<noteq> []"
    "Content (ChoiceMessage (hd (Choices demo_response))) = ''Success after retry''"
    "model ?c = ''model''" "''You are a helpful assistant.'' \<noteq> []"
    by (simp_all add: demo_defs)
  from SimpleRequest_messages_and_result
      [of "[]" "''Hello''" demo_world ?c None demo_response _ ?e]
    SimpleRequest_messages_and_result
      [of "''You are a helpful assistant.''" "''Hello''" demo_world ?c None demo_response _ demo_response]
    SimpleRequest_messages_and_result
      [of "[]" "''Hello''" demo_world ?d None _ "MaxRetriesExceeded (Some (HTTPStatusError 500))" ?e]
    c1 c2 f
  show ?thesis by simp
qed

subsection \<open>backoff\<close>

lemma backoff_exact:
  assumes "0 \<le> i" and "i \<le> 33"
  shows "sint (backoff oor i) = 2 ^ nat i * 1000000000"
proof -
  have "(2::int) ^ nat i \<le> 2 ^ 33"
    using assms by (intro power_increasing) auto
  then have le: "(2::int) ^ nat i \<le> 8589934592"
    by simp
  have pos: "(0::int) < 2 ^ nat i"
    by simp
  have w: "backoff oor i = word_of_int (2 ^ nat i * 1000000000)"
    using assms by (simp add: backoff_def pow2_duration_def Second_def)
  have p63: "(2::int) ^ 63 = 9223372036854775808"
    by simp
  have lo: "- (2 ^ 63) \<le> (2::int) ^ nat i * 1000000000"
    unfolding p63 using pos by linarith
  have hi: "(2::int) ^ nat i * 1000000000 < 2 ^ 63"
    unfolding p63 using le by linarith
  have "sint (word_of_int (2 ^ nat i * 1000000000) :: 64 word) =
      signed_take_bit 63 ((2::int) ^ nat i * 1000000000)"
    by (simp only: sint_sbintrunc') simp
  also have "\<dots> = 2 ^ nat i * 1000000000"
    using lo hi by (rule signed_take_bit_int_eq_self)
  finally show ?thesis
    unfolding w .
qed

text \<open>
  C3 (as amended). For every attempt index \<open>0 \<le> i \<le> 33\<close>, \<open>backoff i\<close> is exactly
  \<open>2^i\<close> seconds (a \<open>time.Duration\<close> counts nanoseconds), it does not depend on anything
  but \<open>i\<close>, and \<open>backoff\<close> is non-decreasing on these indices.
\<close>

theorem backoff_in_range:
  assumes "0 \<le> i" and "i \<le> j" and "j \<le> 33"
  shows "sint (backoff oor i) = 2 ^ nat i * 1000000000
         \<and> sint (backoff oor i) \<le> sint (backoff oor j)
         \<and> backoff oor i = backoff oor' i"
proof -
  have i: "sint (backoff oor i) = 2 ^ nat i * 1000000000"
    and j: "sint (backoff oor j) = 2 ^ nat j * 1000000000"
    using assms by (auto intro: backoff_exact)
  have "(2::int) ^ nat i \<le> 2 ^ nat j"
    using assms by (intro power_increasing) auto
  then have "sint (backoff oor i) \<le> sint (backoff oor j)"
    unfolding i j by (intro mult_right_mono) auto
  moreover have "backoff oor i = backoff oor' i"
    using assms by (simp add: backoff_def pow2_duration_def)
  ultimately show ?thesis using i by simp
qed

theorem backoff_in_range_witness:
  "sint (backoff (float_out_of_range demo_world) 0) = 1000000000
   \<and> sint (backoff (float_out_of_range demo_world) 1) = 2000000000
   \<and> sint (backoff (float_out_of_range demo_world) 2) = 4000000000
   \<and> sint (backoff (float_out_of_range demo_world) 3) = 8000000000
   \<and> sint (backoff (float_out_of_range demo_world) 0) \<le> sint (backoff (float_out_of_range demo_world) 3)"
proof -
  have h: "(0::int) \<le> 0" "(0::int) \<le> 1" "(0::int) \<le> 2" "(0::int) \<le> 3" "(1::int) \<le> 3"
    "(2::int) \<le> 3" "(3::int) \<le> 3" "(3::int) \<le> 33"
    by simp_all
  from backoff_in_range [OF h(1) h(4) h(8), of "float_out_of_range demo_world"]
    backoff_in_range [OF h(2) h(5) h(8), of "float_out_of_range demo_world"]
    backoff_in_range [OF h(3) h(6) h(8), of "float_out_of_range demo_world"]
    backoff_in_range [OF h(4) h(7) h(8), of "float_out_of_range demo_world"]
  show ?thesis by simp
qed

theorem backoff_overflow_counterexample:
  "sint (backoff (float_out_of_range demo_world) 34) = - 1266874889709551616
   \<and> sint (backoff (float_out_of_range demo_world) 34) \<noteq> 2 ^ 34 * 1000000000
   \<and> \<not> sint (backoff (float_out_of_range demo_world) 33) \<le> sint (backoff (float_out_of_range demo_world) 34)"
  by (simp add: backoff_def pow2_duration_def Second_def)

subsection \<open>GenerateSchema\<close>

text \<open>
  C10. For every value whose type, after at most one pointer dereference at the top, is
  not a struct, \<open>GenerateSchema\<close> returns an error and no schema; this holds for
  strings, integers, booleans and slices too, which the generator accepts as the type of
  a field.
\<close>

theorem GenerateSchema_non_struct:
  "(Kind (case t of PtrTo el \<Rightarrow> el | _ \<Rightarrow> t) \<noteq> KStruct \<longrightarrow>
      GenerateSchema (Some t) = Inl (ExpectedStruct (Kind (case t of PtrTo el \<Rightarrow> el | _ \<Rightarrow> t))))
   \<and> GenerateSchema (Some TString) = Inl (ExpectedStruct KString)
   \<and> generateSchemaForType TString = Inr [(''type'', JString ''string'')]
   \<and> GenerateSchema (Some TInt) = Inl (ExpectedStruct KInt)
   \<and> generateSchemaForType TInt = Inr [(''type'', JString ''integer'')]
   \<and> GenerateSchema (Some TBool) = Inl (ExpectedStruct KBool)
   \<and> generateSchemaForType TBool = Inr [(''type'', JString ''boolean'')]
   \<and> GenerateSchema (Some (SliceOf TString)) = Inl (ExpectedStruct KSlice)
   \<and> generateSchemaForType (SliceOf TString) =
       Inr [(''type'', JString ''array''), (''items'', JObject [(''type'', JString ''string'')])]"
  by (simp add: GenerateSchema_def)

theorem GenerateSchema_non_struct_witness:
  "GenerateSchema (Some (PtrTo (SliceOf TInt))) = Inl (ExpectedStruct KSlice)
   \<and> GenerateSchema (Some (PtrTo (PtrTo (StructOf [])))) = Inl (ExpectedStruct KPointer)
   \<and> GenerateSchema (Some TFloat64) = Inl (ExpectedStruct KFloat64)"
  using GenerateSchema_non_struct [of "PtrTo (SliceOf TInt)"]
    GenerateSchema_non_struct [of "PtrTo (PtrTo (StructOf []))"]
    GenerateSchema_non_struct [of TFloat64]
  by simp

subsection \<open>The schema generator\<close>

lemma object_fields_Cons:
  "object_fields (f # fs) properties requiredFields =
     (case object_fields [f] properties requiredFields of
        Inl err \<Rightarrow> Inl err
      | Inr (properties', requiredFields') \<Rightarrow> object_fields fs properties' requiredFields')"
  by (cases f) (simp add: Let_def split: sum.splits option.splits jvalue.splits)

lemma object_fields_skipped:
  "spec_skipped f \<Longrightarrow> object_fields [f] properties requiredFields = Inr (properties, requiredFields)"
  by (cases f) (auto simp: spec_skipped_def Let_def)

lemma object_fields_embedded:
  assumes "\<not> spec_skipped f" and "Anonymous f"
  shows "object_fields [f] properties requiredFields =
     (case generateSchemaForType (FType f) of
        Inl err \<Rightarrow> Inl err
      | Inr embeddedSchema \<Rightarrow>
          (case map_of embeddedSchema ''properties'' of
             Some (JObject embedded) \<Rightarrow>
               Inr (fold (\<lambda>(key, v). AList.update key v) embedded properties,
                    requiredFields @ schema_required embeddedSchema)
           | _ \<Rightarrow> Inl PanicTypeAssertion))"
  using assms
  by (cases f)
     (simp add: spec_skipped_def schema_required_def split: sum.splits option.splits jvalue.splits)

lemma object_fields_named_error:
  assumes "\<not> spec_skipped f" and "\<not> Anonymous f" and "generateSchemaForType (FType f) = Inl err"
  shows "object_fields [f] properties requiredFields = Inl (FieldError (FName f) err)"
  using assms by (cases f) (simp add: spec_skipped_def Let_def)

lemma object_fields_named:
  assumes "\<not> spec_skipped f" and "\<not> Anonymous f" and "generateSchemaForType (FType f) = Inr propSchema"
  shows "\<exists>properties'. object_fields [f] properties requiredFields =
     Inr (properties',
          requiredFields @ (if spec_omitempty f then [] else [spec_json_name f]))"
  using assms
  by (cases f) (simp add: spec_skipped_def spec_omitempty_def spec_json_name_def Let_def)


lemma spec_unsupported_fields_Cons:
  "spec_unsupported_fields (f # fs) =
     (if spec_skipped f then spec_unsupported_fields fs
      else (case spec_unsupported (FType f) of
              Some (path, k) \<Rightarrow> Some (if Anonymous f then path else FName f # path, k)
            | None \<Rightarrow> spec_unsupported_fields fs))"
  by (cases f) (simp split: option.splits)

lemma embeds_structs_fields_Cons:
  "embeds_structs_fields (f # fs) =
     ((spec_skipped f \<or> ((Anonymous f \<longrightarrow> is_struct_type (FType f)) \<and> embeds_structs (FType f)))
      \<and> embeds_structs_fields fs)"
  by (cases f) simp

lemma object_schema_lookup:
  "map_of [(''type'', JString ''object''), (''properties'', JObject properties)] ''type'' =
     Some (JString ''object'')"
  "map_of [(''type'', JString ''object''), (''properties'', JObject properties)] ''properties'' =
     Some (JObject properties)"
  "map_of [(''type'', JString ''object''), (''properties'', JObject properties)] ''required'' = None"
  by simp_all

lemma map_of_object_schema:
  assumes "generateObjectSchema fs = Inr schema"
  shows "\<exists>properties requiredFields.
        object_fields fs [] [] = Inr (properties, requiredFields)
        \<and> map_of schema ''type'' = Some (JString ''object'')
        \<and> map_of schema ''properties'' = Some (JObject properties)
        \<and> map_of schema ''required'' =
            (if requiredFields = [] then None else Some (JStrings requiredFields))"
proof (cases "object_fields fs [] []")
  case (Inl err)
  with assms show ?thesis by simp
next
  case (Inr pr)
  obtain p r where pr: "pr = (p, r)" by (cases pr)
  let ?base = "[(''type'', JString ''object''), (''properties'', JObject p)]"
  have schema: "schema = (if r = [] then ?base else AList.update ''required'' (JStrings r) ?base)"
    using assms Inr pr by (simp add: Let_def split: if_splits)
  have "map_of schema ''type'' = Some (JString ''object'')"
    "map_of schema ''properties'' = Some (JObject p)"
    "map_of schema ''required'' = (if r = [] then None else Some (JStrings r))"
    unfolding schema by (simp_all add: update_conv' object_schema_lookup del: map_of.simps AList.update.simps)
  with Inr pr show ?thesis by blast
qed




lemma struct_schema_properties:
  "is_struct_type t \<Longrightarrow> generateSchemaForType t = Inr schema \<Longrightarrow>
     \<exists>properties. map_of schema ''properties'' = Some (JObject properties)"
proof (induction t rule: is_struct_type.induct)
  case (1 fs)
  then show ?case
    using map_of_object_schema [of fs schema] by auto
qed simp_all

lemma innermost_field_foldr:
  "path \<noteq> [] \<Longrightarrow>
     innermost_field (foldr FieldError path (UnsupportedType k)) = Some (last path)"
proof (induction path)
  case Nil
  then show ?case by simp
next
  case (Cons name path)
  then show ?case by (cases path) simp_all
qed

lemma object_fields_unsupported:
  assumes "\<And>f. f \<in> set fs \<Longrightarrow> embeds_structs (FType f) \<Longrightarrow>
      (\<forall>path k. spec_unsupported (FType f) = Some (path, k) \<longrightarrow>
         generateSchemaForType (FType f) = Inl (foldr FieldError path (UnsupportedType k)))
      \<and> (spec_unsupported (FType f) = None \<longrightarrow> \<not> isl (generateSchemaForType (FType f)))"
    and "embeds_structs_fields fs"
  shows "(\<forall>path k. spec_unsupported_fields fs = Some (path, k) \<longrightarrow>
           object_fields fs properties requiredFields =
             Inl (foldr FieldError path (UnsupportedType k)))
         \<and> (spec_unsupported_fields fs = None \<longrightarrow>
              \<not> isl (object_fields fs properties requiredFields))"
  using assms
proof (induction fs arbitrary: properties requiredFields)
  case Nil
  then show ?case by simp
next
  case (Cons f fs)
  have rest: "\<And>p r. (\<forall>path k. spec_unsupported_fields fs = Some (path, k) \<longrightarrow>
           object_fields fs p r = Inl (foldr FieldError path (UnsupportedType k)))
         \<and> (spec_unsupported_fields fs = None \<longrightarrow> \<not> isl (object_fields fs p r))"
    using Cons.IH Cons.prems by (simp add: embeds_structs_fields_Cons)
  show ?case
  proof (cases "spec_skipped f")
    case True
    then have "object_fields (f # fs) properties requiredFields =
        object_fields fs properties requiredFields"
      by (subst object_fields_Cons) (simp add: object_fields_skipped)
    with True rest show ?thesis
      by (simp add: spec_unsupported_fields_Cons)
  next
    case False
    then have emb: "Anonymous f \<longrightarrow> is_struct_type (FType f)" and ok: "embeds_structs (FType f)"
      using Cons.prems(2) by (auto simp: embeds_structs_fields_Cons)
    have gen: "(\<forall>path k. spec_unsupported (FType f) = Some (path, k) \<longrightarrow>
         generateSchemaForType (FType f) = Inl (foldr FieldError path (UnsupportedType k)))
      \<and> (spec_unsupported (FType f) = None \<longrightarrow> \<not> isl (generateSchemaForType (FType f)))"
      using Cons.prems(1) [of f] ok by simp
    show ?thesis
    proof (cases "spec_unsupported (FType f)")
      case (Some pk)
      obtain path k where pk: "pk = (path, k)" by (cases pk)
      have g: "generateSchemaForType (FType f) = Inl (foldr FieldError path (UnsupportedType k))"
        using gen Some pk by simp
      have one: "object_fields [f] properties requiredFields =
          Inl (foldr FieldError (if Anonymous f then path else FName f # path) (UnsupportedType k))"
      proof (cases "Anonymous f")
        case True
        with False g show ?thesis by (simp add: object_fields_embedded)
      next
        case named: False
        with False g show ?thesis by (simp add: object_fields_named_error)
      qed
      have "object_fields (f # fs) properties requiredFields =
          Inl (foldr FieldError (if Anonymous f then path else FName f # path) (UnsupportedType k))"
        by (subst object_fields_Cons) (simp add: one)
      with False Some pk show ?thesis
        by (simp add: spec_unsupported_fields_Cons)
    next
      case None
      then obtain schema where g: "generateSchemaForType (FType f) = Inr schema"
        using gen by (cases "generateSchemaForType (FType f)") auto
      have "\<exists>p r. object_fields [f] properties requiredFields = Inr (p, r)"
      proof (cases "Anonymous f")
        case True
        with emb g obtain embedded where "map_of schema ''properties'' = Some (JObject embedded)"
          using struct_schema_properties by blast
        with True False g show ?thesis by (simp add: object_fields_embedded)
      next
        case named: False
        from object_fields_named [OF False named g] show ?thesis by blast
      qed
      then obtain p r where "object_fields [f] properties requiredFields = Inr (p, r)"
        by blast
      then have "object_fields (f # fs) properties requiredFields = object_fields fs p r"
        by (subst object_fields_Cons) simp
      with False None rest show ?thesis
        by (simp add: spec_unsupported_fields_Cons)
    qed
  qed
qed

lemma object_schema_isl:
  "isl (generateObjectSchema fs) = isl (object_fields fs [] [])"
  "generateObjectSchema fs = Inl err \<longleftrightarrow> object_fields fs [] [] = Inl err"
  by (auto simp: Let_def split: sum.splits)

lemma array_schema_isl:
  "isl (generateArraySchema t) = isl (generateSchemaForType t)"
  "generateArraySchema t = Inl err \<longleftrightarrow> generateSchemaForType t = Inl err"
  by (auto split: sum.splits)

lemma generate_unsupported:
  fixes t :: gtype and f :: sfield
  shows "embeds_structs t \<Longrightarrow>
      (\<forall>path k. spec_unsupported t = Some (path, k) \<longrightarrow>
         generateSchemaForType t = Inl (foldr FieldError path (UnsupportedType k)))
      \<and> (spec_unsupported t = None \<longrightarrow> \<not> isl (generateSchemaForType t))"
    and "embeds_structs (FType f) \<Longrightarrow>
      (\<forall>path k. spec_unsupported (FType f) = Some (path, k) \<longrightarrow>
         generateSchemaForType (FType f) = Inl (foldr FieldError path (UnsupportedType k)))
      \<and> (spec_unsupported (FType f) = None \<longrightarrow> \<not> isl (generateSchemaForType (FType f)))"
proof (induction t and f)
  case (StructOf fs)
  then have "embeds_structs_fields fs" by simp
  from object_fields_unsupported [where fs = fs and properties = "[]" and requiredFields = "[]",
      OF StructOf.IH this]
  show ?case
    by (simp add: object_schema_isl del: generateObjectSchema.simps)
next
  case (SliceOf t)
  then show ?case by (simp add: array_schema_isl del: generateArraySchema.simps)
next
  case (ArrayOf n t)
  then show ?case by (simp add: array_schema_isl del: generateArraySchema.simps)
next
  case (PtrTo t)
  then show ?case by simp
next
  case (SField name pkgPath anonymous tag ftype)
  then show ?case by simp
qed (simp_all add: supported_scalar_def)

lemma struct_path_nonempty:
  fixes t :: gtype and f :: sfield
  shows "is_struct_type t \<Longrightarrow> embeds_structs t \<Longrightarrow> spec_unsupported t = Some (path, k) \<Longrightarrow>
           path \<noteq> []"
    and "is_struct_type (FType f) \<Longrightarrow> embeds_structs (FType f) \<Longrightarrow>
           spec_unsupported (FType f) = Some (path, k) \<Longrightarrow> path \<noteq> []"
proof (induction t and f arbitrary: path k and path k)
  case (StructOf fs)
  have "embeds_structs_fields fs \<Longrightarrow> spec_unsupported_fields fs = Some (path, k) \<Longrightarrow>
      (\<And>f path k. f \<in> set fs \<Longrightarrow> is_struct_type (FType f) \<Longrightarrow> embeds_structs (FType f) \<Longrightarrow>
         spec_unsupported (FType f) = Some (path, k) \<Longrightarrow> path \<noteq> []) \<Longrightarrow> path \<noteq> []"
  proof (induction fs)
    case Nil
    then show ?case by simp
  next
    case (Cons f fs)
    show ?case
    proof (cases "spec_skipped f \<or> spec_unsupported (FType f) = None")
      case True
      then have "spec_unsupported_fields fs = Some (path, k)"
        using Cons.prems(2) by (auto simp: spec_unsupported_fields_Cons split: if_splits)
      with Cons show ?thesis
        by (auto simp: embeds_structs_fields_Cons)
    next
      case False
      then obtain p where p: "spec_unsupported (FType f) = Some (p, k)"
        and path: "path = (if Anonymous f then p else FName f # p)"
        using Cons.prems(2)
        by (auto simp: spec_unsupported_fields_Cons split: if_splits option.splits)
      show ?thesis
      proof (cases "Anonymous f")
        case True
        with False Cons.prems(1) have "is_struct_type (FType f)" "embeds_structs (FType f)"
          by (auto simp: embeds_structs_fields_Cons)
        from Cons.prems(3) [OF _ this p] True path show ?thesis by simp
      next
        case False
        with path show ?thesis by simp
      qed
    qed
  qed
  with StructOf show ?case by simp
qed simp_all





lemma RequestWithSchema_schema_error:
  "GenerateSchema target = Inl err \<Longrightarrow>
     RequestWithSchema w c ctx systemPrompt userPrompt target = (Inl (SchemaError err), [])"
  by (simp add: RequestWithSchema_def)

subsection \<open>Cancellation during the backoff wait\<close>

text \<open>
  C4. In every iteration of the loop of \<open>Chat\<close> with \<open>attempt > 0\<close>: if the caller's
  context is done when the wait begins, or becomes done during the wait before the
  timer fires, with \<open>ctx.Err() = e\<close>, then \<open>Chat\<close> returns at once with the error \<open>e\<close> of
  the context, and the events are those before the wait: no further request is sent.
\<close>

theorem Chat_cancelled_during_backoff:
  assumes "0 < attempt" and "attempt \<le> maxRetries c"
    and "ctx = Some e \<or> (ctx = None \<and> ctx_done_in_wait w (nat attempt) = Some e)"
  shows "chat_loop w c req ctx attempt lastErr tr = (Inl (ContextError e), tr)"
proof -
  have "backoff_wait w ctx attempt = Inl e"
    using assms(3) by (auto simp: backoff_wait_def)
  with assms(1,2) show ?thesis
    by (simp add: chat_loop_Return chat_attempt_ctx_done)
qed

theorem Chat_cancelled_during_backoff_witness:
  "fst (Chat cancel_world (demo_client failing_client ''m'' 3) None (demo_request ''gpt'')) =
     Inl (ContextError Canceled)
   \<and> length (sends (snd (Chat cancel_world (demo_client failing_client ''m'' 3) None
        (demo_request ''gpt'')))) = 1
   \<and> fst (Chat deadline_world (demo_client failing_client ''m'' 3) None (demo_request ''gpt'')) =
     Inl (ContextError DeadlineExceeded)
   \<and> length (sends (snd (Chat deadline_world (demo_client failing_client ''m'' 3) None
        (demo_request ''gpt'')))) = 2
   \<and> fst (Chat demo_world (demo_client failing_client ''m'' 3) (Some DeadlineExceeded)
        (demo_request ''gpt'')) = Inl (ContextError DeadlineExceeded)
   \<and> length (sends (snd (Chat demo_world (demo_client failing_client ''m'' 3) (Some DeadlineExceeded)
        (demo_request ''gpt'')))) = 1"
proof -
  let ?c = "demo_client failing_client ''m'' 3"
  let ?r = "demo_request ''gpt''"
  let ?h = "build_request ?c ''gpt''"
  have eff: "effective_request ?c ?r = ?r"
    by (simp add: demo_defs)
  have m: "maxRetries ?c = 3"
    by (simp add: demo_defs)
  have reply: "\<And>w i. json_marshal w = json_marshal demo_world \<Longrightarrow>
      new_request_error w = new_request_error demo_world \<Longrightarrow> retryable_reply w ?c ?r i"
    by (simp add: retryable_reply_def doRequest_def demo_defs)
  \<comment> \<open>cancelled during the first wait\<close>
  have "\<forall>i. 0 \<le> i \<and> i < 0 + 1 \<longrightarrow> retryable_reply cancel_world ?c ?r i"
    "\<forall>i. 0 < i \<and> 0 \<le> i \<and> i < 0 + 1 \<longrightarrow> ctx_done_in_wait cancel_world i = None"
    "int (0 + 1) \<le> maxRetries ?c + 1"
    using m by (auto intro!: reply simp: cancel_world_def)
  from chat_loop_retry_run [OF this, of None "[]"] obtain e1 t1 where
    run1: "chat_loop cancel_world ?c ?r None 0 None [] = chat_loop cancel_world ?c ?r None 1 e1 t1"
    and len1: "length (sends t1) = 1"
    by auto
  have "0 < (1::int)" "1 \<le> maxRetries ?c"
    "None = Some Canceled \<or> ((None::ctx_err option) = None \<and> ctx_done_in_wait cancel_world (nat 1) = Some Canceled)"
    using m by (simp_all add: cancel_world_def)
  from Chat_cancelled_during_backoff [OF this, of ?r e1 t1]
  have r1: "chat_loop cancel_world ?c ?r None 1 e1 t1 = (Inl (ContextError Canceled), t1)" .
  \<comment> \<open>deadline during the second wait\<close>
  have "\<forall>i. 0 \<le> i \<and> i < 0 + 2 \<longrightarrow> retryable_reply deadline_world ?c ?r i"
    "\<forall>i. 0 < i \<and> 0 \<le> i \<and> i < 0 + 2 \<longrightarrow> ctx_done_in_wait deadline_world i = None"
    "int (0 + 2) \<le> maxRetries ?c + 1"
    using m by (auto intro!: reply simp: deadline_world_def)
  from chat_loop_retry_run [OF this, of None "[]"] obtain e2 t2 where
    run2: "chat_loop deadline_world ?c ?r None 0 None [] = chat_loop deadline_world ?c ?r None 2 e2 t2"
    and len2: "length (sends t2) = 2"
    by auto
  have "0 < (2::int)" "2 \<le> maxRetries ?c"
    "None = Some DeadlineExceeded
     \<or> ((None::ctx_err option) = None \<and> ctx_done_in_wait deadline_world (nat 2) = Some DeadlineExceeded)"
    using m by (simp_all add: deadline_world_def)
  from Chat_cancelled_during_backoff [OF this, of ?r e2 t2]
  have r2: "chat_loop deadline_world ?c ?r None 2 e2 t2 = (Inl (ContextError DeadlineExceeded), t2)" .
  \<comment> \<open>done on entry, with a transport that answers all the same\<close>
  have run3: "chat_loop demo_world ?c ?r (Some DeadlineExceeded) 0 None [] =
      chat_loop demo_world ?c ?r (Some DeadlineExceeded) 1 (Some (HTTPStatusError 500)) [Sent ?h]"
    by (subst chat_loop.simps) (simp add: run_defs demo_defs)
  have "0 < (1::int)" "1 \<le> maxRetries ?c"
    "Some DeadlineExceeded = Some DeadlineExceeded
     \<or> (Some DeadlineExceeded = None \<and> ctx_done_in_wait demo_world (nat 1) = Some DeadlineExceeded)"
    using m by simp_all
  from Chat_cancelled_during_backoff [OF this, of ?r "Some (HTTPStatusError 500)" "[Sent ?h]"]
  have r3: "chat_loop demo_world ?c ?r (Some DeadlineExceeded) 1 (Some (HTTPStatusError 500)) [Sent ?h] =
      (Inl (ContextError DeadlineExceeded), [Sent ?h])" .
  show ?thesis
    unfolding Chat_effective eff
    using run1 r1 len1 run2 r2 len2 run3 r3 by simp
qed

text \<open>
  C9 (as amended). For every struct type that does not refer to itself (the types of
  the model), whose embedded fields are structs or pointers to structs, and in which a
  type of an unsupported kind is reached through fields that are exported and, unless
  embedded, not tagged \<open>-\<close> (through pointers, slices, arrays and nested structs), schema
  generation fails with the unsupported-type error wrapped in the names of the fields
  (not embedded) on the way to the first such place; the innermost name is the field
  where the unsupported type occurs. \<open>RequestWithSchema\<close> on such a target, or on a
  pointer to it, returns this error and sends no request.
\<close>

theorem RequestWithSchema_unsupported_field:
  assumes "embeds_structs (StructOf fs)"
    and "spec_unsupported (StructOf fs) = Some (path, k)"
  shows "path \<noteq> []
     \<and> innermost_field (foldr FieldError path (UnsupportedType k)) = Some (last path)
     \<and> GenerateSchema (Some (StructOf fs)) = Inl (foldr FieldError path (UnsupportedType k))
     \<and> GenerateSchema (Some (PtrTo (StructOf fs))) = Inl (foldr FieldError path (UnsupportedType k))
     \<and> RequestWithSchema w c ctx systemPrompt userPrompt (Some (StructOf fs)) =
         (Inl (SchemaError (foldr FieldError path (UnsupportedType k))), [])
     \<and> RequestWithSchema w c ctx systemPrompt userPrompt (Some (PtrTo (StructOf fs))) =
         (Inl (SchemaError (foldr FieldError path (UnsupportedType k))), [])"
proof -
  have ne: "path \<noteq> []"
    using struct_path_nonempty(1) [OF _ assms] by simp
  have gen: "generateSchemaForType (StructOf fs) = Inl (foldr FieldError path (UnsupportedType k))"
    using generate_unsupported(1) [OF assms(1)] assms(2) by blast
  then have g1: "GenerateSchema (Some (StructOf fs)) = Inl (foldr FieldError path (UnsupportedType k))"
    and g2: "GenerateSchema (Some (PtrTo (StructOf fs))) =
      Inl (foldr FieldError path (UnsupportedType k))"
    by (simp_all add: GenerateSchema_def del: generateSchemaForType.simps)
  show ?thesis
    using ne innermost_field_foldr [OF ne] g1 g2
      RequestWithSchema_schema_error [OF g1] RequestWithSchema_schema_error [OF g2]
    by simp
qed

theorem RequestWithSchema_unsupported_field_witness:
  "GenerateSchema (Some nested_map_struct) =
     Inl (FieldError ''Inner'' (FieldError ''Tags'' (UnsupportedType KMap)))
   \<and> innermost_field (FieldError ''Inner'' (FieldError ''Tags'' (UnsupportedType KMap))) = Some ''Tags''
   \<and> RequestWithSchema demo_world (demo_client (flaky_client 0) ''model'' 3) None
        ''Extract the data.'' ''Hello'' (Some (PtrTo nested_map_struct)) =
       (Inl (SchemaError (FieldError ''Inner'' (FieldError ''Tags'' (UnsupportedType KMap)))), [])"
proof -
  let ?fs = "[SField ''Name'' [] False [(''json'', ''name'')] TString,
              SField ''Inner'' [] False [(''json'', ''inner'')]
                (PtrTo (StructOf [SField ''Tags'' [] False [] (SliceOf TMap)]))]"
  have h: "embeds_structs (StructOf ?fs)"
    "spec_unsupported (StructOf ?fs) = Some ([''Inner'', ''Tags''], KMap)"
    by (simp_all add: spec_skipped_def tag_get_def supported_scalar_def)
  from RequestWithSchema_unsupported_field [OF h, of demo_world
      "demo_client (flaky_client 0) ''model'' 3" None "''Extract the data.''" "''Hello''"]
  show ?thesis
    by (simp add: nested_map_struct_def)
qed

theorem RequestWithSchema_skipped_map_counterexample:
  "GenerateSchema (Some (PtrTo hidden_map_struct)) =
     Inr [(''type'', JString ''object''),
          (''properties'', JObject [(''name'', JObject [(''type'', JString ''string'')])]),
          (''required'', JStrings [''name''])]
   \<and> RequestWithSchema json_world (demo_client (flaky_client 0) ''model'' 3) None
        ''Extract the data.'' ''Hello'' (Some (PtrTo hidden_map_struct)) =
       (Inr (), [Sent (build_request (demo_client (flaky_client 0) ''model'' 3) ''model'')])
   \<and> GenerateSchema (Some (PtrTo embedded_interface_struct)) = Inl (UnsupportedType KInterface)
   \<and> innermost_field (UnsupportedType KInterface) = None"
proof -
  have g: "GenerateSchema (Some (PtrTo hidden_map_struct)) =
     Inr [(''type'', JString ''object''),
          (''properties'', JObject [(''name'', JObject [(''type'', JString ''string'')])]),
          (''required'', JStrings [''name''])]"
    by code_simp
  have e: "GenerateSchema (Some (PtrTo embedded_interface_struct)) = Inl (UnsupportedType KInterface)"
    by code_simp
  have r: "RequestWithSchema json_world (demo_client (flaky_client 0) ''model'' 3) None
        ''Extract the data.'' ''Hello'' (Some (PtrTo hidden_map_struct)) =
       (Inr (), [Sent (build_request (demo_client (flaky_client 0) ''model'' 3) ''model'')])"
    unfolding RequestWithSchema_def g
    by (simp add: chat_loop.simps run_defs demo_defs schema_request_def json_world_def
        json_response_def)
  from g e r show ?thesis by simp
qed

end
